theory Spec2Isabelle
  imports Main
begin

section \<open>Go library functions the generator calls\<close>

text \<open>
  The generator (pkg/moq/moq.go) leans on a handful of functions of Go's standard
  library. They are modelled here after their Go sources, on byte strings, for Unix
  paths (separator \<open>/\<close>, no volume names).
\<close>

subsection \<open>Package strings\<close>

definition HasPrefix :: "string \<Rightarrow> string \<Rightarrow> bool" where
  "HasPrefix s prefix = (take (length prefix) s = prefix)"

definition TrimPrefix :: "string \<Rightarrow> string \<Rightarrow> string" where
  "TrimPrefix s prefix = (if HasPrefix s prefix then drop (length prefix) s else s)"

text \<open>\<open>strings.TrimLeft(s, cutset)\<close>: drop leading bytes that are in the cutset.\<close>

definition TrimLeft :: "string \<Rightarrow> string \<Rightarrow> string" where
  "TrimLeft s cutset = dropWhile (\<lambda>c. c \<in> set cutset) s"

text \<open>\<open>strings.Index(s, sep)\<close>: the offset of the first occurrence, \<open>None\<close> for Go's -1.\<close>

fun Index :: "string \<Rightarrow> string \<Rightarrow> nat option" where
  "Index [] sep = (if sep = [] then Some 0 else None)"
| "Index (c # cs) sep =
     (if HasPrefix (c # cs) sep then Some 0 else map_option Suc (Index cs sep))"

definition Contains :: "string \<Rightarrow> string \<Rightarrow> bool" where
  "Contains s substr = (Index s substr \<noteq> None)"

text \<open>
  \<open>strings.Split(s, sep)\<close>: the pieces between the occurrences of \<open>sep\<close>, found
  from the left without overlap. An empty separator splits after every byte.
\<close>

function Split :: "string \<Rightarrow> string \<Rightarrow> string list" where
  "Split s sep =
     (if sep = [] then map (\<lambda>c. [c]) s
      else case Index s sep of
             None \<Rightarrow> [s]
           | Some i \<Rightarrow> take i s # Split (drop (i + length sep) s) sep)"
  by pat_completeness auto
termination
proof (relation "measure (\<lambda>(s, sep). length s)")
  show "wf (measure (\<lambda>(s, sep). length s))" by simp
next
  fix s sep :: string and i :: nat
  assume sep: "sep \<noteq> []" and idx: "Index s sep = Some i"
  from sep idx have "s \<noteq> []" by (cases s) auto
  with sep show "((drop (i + length sep) s, sep), (s, sep)) \<in> measure (\<lambda>(s, sep). length s)"
    by simp
qed

text \<open>\<open>strings.Join(elems, sep)\<close>.\<close>

fun strings_Join :: "string list \<Rightarrow> string \<Rightarrow> string" where
  "strings_Join [] sep = []"
| "strings_Join [e] sep = e"
| "strings_Join (e # es) sep = e @ sep @ strings_Join es sep"

subsection \<open>Decimal formatting\<close>

text \<open>
  \<open>fmt.Sprintf\<close> is called with the formats \<open>in%d\<close> and \<open>out%d\<close> and one
  non-negative integer. \<open>itoa\<close> is the decimal rendering of \<open>%d\<close>; \<open>Sprintf\<close> replaces
  the first \<open>%d\<close> verb by it and copies the rest of the format.
\<close>

definition digit :: "nat \<Rightarrow> char" where
  "digit d = ''0123456789'' ! d"

function itoa :: "nat \<Rightarrow> string" where
  "itoa n = (if n < 10 then [digit n] else itoa (n div 10) @ [digit (n mod 10)])"
  by pat_completeness auto
termination
  by (relation "measure (\<lambda>n. n)") auto

fun Sprintf :: "string \<Rightarrow> nat \<Rightarrow> string" where
  "Sprintf (c # d # cs) n =
     (if c = CHR ''%'' \<and> d = CHR ''d'' then itoa n @ cs else c # Sprintf (d # cs) n)"
| "Sprintf cs n = cs"

subsection \<open>Packages path and path/filepath\<close>

text \<open>
  \<open>path.Clean\<close>, after its Go source: \<open>out\<close> is the output written so far (the
  \<open>lazybuf\<close>, of length \<open>out.w\<close>), \<open>dotdot\<close> the offset below which the output may
  not be cut back, and the last argument the unread rest of the path.
\<close>

text \<open>
  Backtracking for a \<open>..\<close> element: \<open>out.w--\<close>, then
  \<open>for out.w > dotdot && out.index(out.w) != '/' { out.w-- }\<close>.
\<close>

fun backtrack :: "string \<Rightarrow> nat \<Rightarrow> nat \<Rightarrow> nat" where
  "backtrack out dotdot 0 = 0"
| "backtrack out dotdot (Suc w) =
     (if Suc w > dotdot \<and> out ! (Suc w) \<noteq> CHR ''/'' then backtrack out dotdot w else Suc w)"

function clean_loop :: "bool \<Rightarrow> string \<Rightarrow> nat \<Rightarrow> string \<Rightarrow> string" where
  "clean_loop rooted out dotdot [] = out"
| "clean_loop rooted out dotdot (c # cs) =
     (if c = CHR ''/'' then clean_loop rooted out dotdot cs
      else if c = CHR ''.'' \<and> (cs = [] \<or> hd cs = CHR ''/'') then
        clean_loop rooted out dotdot cs
      else if c = CHR ''.'' \<and> hd cs = CHR ''.'' \<and> (tl cs = [] \<or> hd (tl cs) = CHR ''/'') then
        (if length out > dotdot then
           clean_loop rooted (take (backtrack out dotdot (length out - 1)) out) dotdot (tl cs)
         else if rooted then clean_loop rooted out dotdot (tl cs)
         else
           (let out' = (if out = [] then [] else out @ ''/'') @ ''..''
            in clean_loop rooted out' (length out') (tl cs)))
      else
        (let out' = (if rooted \<and> length out \<noteq> 1 then out @ ''/''
                     else if rooted then out
                     else if out = [] then out else out @ ''/'')
         in clean_loop rooted (out' @ takeWhile (\<lambda>x. x \<noteq> CHR ''/'') (c # cs)) dotdot
              (dropWhile (\<lambda>x. x \<noteq> CHR ''/'') (c # cs))))"
  by pat_completeness auto
termination
  by (relation "measure (\<lambda>(rooted, out, dotdot, p). length p)")
     (auto simp: less_Suc_eq_le length_dropWhile_le)

definition Clean :: "string \<Rightarrow> string" where
  "Clean p =
     (if p = [] then ''.''
      else
        (let rooted = (hd p = CHR ''/'');
             out = (if rooted then clean_loop True ''/'' 1 (tl p)
                    else clean_loop False [] 0 p)
         in if out = [] then ''.'' else out))"

text \<open>
  \<open>path.Join\<close> and, on Unix, \<open>filepath.Join\<close>: leading empty elements are skipped,
  the rest is joined with \<open>/\<close> and cleaned; with no non-empty element the result is
  empty.
\<close>

definition Join :: "string list \<Rightarrow> string" where
  "Join elem =
     (case dropWhile (\<lambda>e. e = []) elem of
        [] \<Rightarrow> []
      | e # es \<Rightarrow> Clean (strings_Join (e # es) ''/''))"

text \<open>
  \<open>filepath.Dir\<close>: everything up to the last separator, cleaned.
\<close>

definition Dir :: "string \<Rightarrow> string" where
  "Dir p = Clean (rev (dropWhile (\<lambda>x. x \<noteq> CHR ''/'') (rev p)))"

text \<open>\<open>filepath.SplitList\<close> on Unix: the list separator is \<open>:\<close>.\<close>

definition SplitList :: "string \<Rightarrow> string list" where
  "SplitList p = (if p = [] then [] else Split p '':'')"

section \<open>The type checker's view of a package (go/types)\<close>

text \<open>
  A \<open>types.Package\<close> is its import path and its name. A \<open>types.Type\<close> is modelled for
  the type constructors the generator passes through: basic types, named types (with the
  package that declares them, \<open>None\<close> for the universe, as for \<open>error\<close>), pointers,
  slices, arrays, maps and channels. A \<open>types.Var\<close> of a parameter tuple is a name (empty
  when the source gives none) and a type.
\<close>

datatype package = Package (Path: string) (PkgName: string)

datatype chandir = SendRecv | SendOnly | RecvOnly

datatype gotype =
    Basic string
  | Named "package option" string
  | Pointer gotype
  | Slice gotype
  | Array nat gotype
  | Map gotype gotype
  | Chan chandir gotype

datatype var = Var (VarName: string) (VarType: gotype)

text \<open>
  A \<open>types.Signature\<close>: the variadic flag, the parameters and the results. For a
  variadic signature go/types stores the last parameter with its slice type.
\<close>

datatype signature =
  Signature (Variadic_sig: bool) (Params_sig: "var list") (Results_sig: "var list")

text \<open>A method of an interface (\<open>types.Func\<close>): its name and its signature.\<close>

datatype func = Func (FuncName: string) (FuncSig: signature)

section \<open>The Mocker\<close>

text \<open>
  The fields of \<open>Mocker\<close> that \<open>New\<close> sets and \<open>Mock\<close> reads or writes, each
  written with the prefix \<open>m_\<close> (\<open>tmpl\<close> is the environment's \<open>Execute\<close> below;
  \<open>fset\<close> and \<open>pkgs\<close> are not read again). \<open>imports\<close> is the Go map
  \<open>map[string]bool\<close>, in which only the value \<open>true\<close> is ever stored: it is kept as
  the list of its keys, without duplicates.
\<close>

record Mocker =
  m_src :: string
  m_pkgName :: string
  m_pkgPath :: string
  m_imports :: "string list"

text \<open>
  The errors of \<open>New\<close> and \<open>Mock\<close>, by the place that raises them; those that wrap
  an error of the environment carry its message. \<open>SliceBoundsPanic\<close> is not a returned
  error but the run-time panic of a slice expression out of range, which aborts the
  call.
\<close>

datatype error =
    ParseDirError string
  | NoPackageName
  | AbsError string
  | TemplateParseError string
  | MustSpecifyInterface
  | CleanupFailed
  | LoadError string
  | PackageNil
  | NotFound string
  | NotAnInterface string string
  | TemplateError string
  | GoimportsError string
  | WriteError string
  | SliceBoundsPanic

text \<open>
  \<open>packageQualifier\<close> (moq.go, lines 210-222). It returns the qualifier and the Mocker
  with its import map updated.
\<close>

definition packageQualifier :: "package \<Rightarrow> Mocker \<Rightarrow> string \<times> Mocker" where
  "packageQualifier pkg m =
     (let path = Path pkg;
          importPath = Join [Dir path, PkgName pkg]
      in if importPath = m_pkgPath m then ([], m)
         else
           (let path = (if path = ''.'' then m_pkgPath m else path)
            in (PkgName pkg, m\<lparr>m_imports := List.insert path (m_imports m)\<rparr>)))"

text \<open>
  \<open>types.TypeString(typ, qf)\<close> with \<open>qf = m.packageQualifier\<close>: the qualifier is
  called for the package of every named type met, left to right, and a non-empty
  qualifier is written before the name, followed by a dot.
\<close>

fun TypeString :: "gotype \<Rightarrow> Mocker \<Rightarrow> string \<times> Mocker" where
  "TypeString (Basic name) m = (name, m)"
| "TypeString (Named None name) m = (name, m)"
| "TypeString (Named (Some pkg) name) m =
     (case packageQualifier pkg m of
        (q, m') \<Rightarrow> ((if q = [] then [] else q @ ''.'') @ name, m'))"
| "TypeString (Pointer t) m = (case TypeString t m of (s, m') \<Rightarrow> (''*'' @ s, m'))"
| "TypeString (Slice t) m = (case TypeString t m of (s, m') \<Rightarrow> (''[]'' @ s, m'))"
| "TypeString (Array n t) m =
     (case TypeString t m of (s, m') \<Rightarrow> (''['' @ itoa n @ '']'' @ s, m'))"
| "TypeString (Map k v) m =
     (case TypeString k m of
        (ks, m') \<Rightarrow> (case TypeString v m' of (vs, m'') \<Rightarrow> (''map['' @ ks @ '']'' @ vs, m'')))"
| "TypeString (Chan d t) m =
     (case TypeString t m of
        (s, m') \<Rightarrow>
          (case d of
             SendRecv \<Rightarrow>
               (case t of
                  Chan RecvOnly u \<Rightarrow> (''chan ('' @ s @ '')'', m')
                | _ \<Rightarrow> (''chan '' @ s, m'))
           | SendOnly \<Rightarrow> (''chan<- '' @ s, m')
           | RecvOnly \<Rightarrow> (''<-chan '' @ s, m')))"

text \<open>The parameter descriptor of the template (\<open>type param struct\<close>).\<close>

record param =
  Name :: string
  Type :: string
  Variadic :: bool

text \<open>
  \<open>extractArgs\<close> (moq.go, lines 224-244). The loop over \<open>ii\<close> is the recursion of
  \<open>extractArgs_loop\<close> over the rest of the tuple, \<open>listLen\<close> being the length of the
  whole tuple. The slice expression \<open>typename[0:2]\<close> panics when \<open>typename\<close> has fewer
  than two bytes; \<open>&&\<close> evaluates it only when the signature is variadic and \<open>ii\<close> is
  the last index.
\<close>

fun extractArgs_loop ::
  "signature \<Rightarrow> nat \<Rightarrow> string \<Rightarrow> nat \<Rightarrow> var list \<Rightarrow> Mocker \<Rightarrow> (error + param list) \<times> Mocker"
where
  "extractArgs_loop sig listLen nameFormat ii [] m = (Inr [], m)"
| "extractArgs_loop sig listLen nameFormat ii (p # rest) m =
     (let name = (if VarName p = [] then Sprintf nameFormat (ii + 1) else VarName p)
      in case TypeString (VarType p) m of
           (typename, m') \<Rightarrow>
             if Variadic_sig sig \<and> ii = listLen - 1 \<and> length typename < 2
             then (Inl SliceBoundsPanic, m')
             else
               (let variadic =
                      (Variadic_sig sig \<and> ii = listLen - 1 \<and> take 2 typename = ''[]'')
                in case extractArgs_loop sig listLen nameFormat (ii + 1) rest m' of
                     (Inl e, m'') \<Rightarrow> (Inl e, m'')
                   | (Inr params, m'') \<Rightarrow>
                       (Inr (\<lparr>Name = name, Type = typename, Variadic = variadic\<rparr> # params),
                        m'')))"

definition extractArgs ::
  "Mocker \<Rightarrow> signature \<Rightarrow> var list \<Rightarrow> string \<Rightarrow> (error + param list) \<times> Mocker"
where
  "extractArgs m sig list nameFormat =
     extractArgs_loop sig (length list) nameFormat 0 list m"

text \<open>
  The data handed to the template: the structs \<open>method\<close> (here \<open>method_desc\<close>, the
  word being reserved), \<open>obj\<close> and \<open>doc\<close>.
\<close>

record method_desc =
  MethodName :: string
  Params :: "param list"
  Returns :: "param list"

record obj =
  InterfaceName :: string
  Methods :: "method_desc list"

record doc =
  PackageName :: string
  Objects :: "obj list"
  Imports :: "string list"

section \<open>The environment\<close>

text \<open>
  An object found by \<open>Scope().Lookup\<close>: either one whose type is an interface, with the
  methods of the completed interface in the order of \<open>Method(i)\<close>, or any other object,
  with the rendering of its type. \<open>PackageInfo\<close> is what the loader returns: the package
  and the lookup function of its scope.
\<close>

datatype object = InterfaceObject "func list" | OtherObject string

record PackageInfo =
  Pkg :: package
  Lookup :: "string \<Rightarrow> object option"

text \<open>
  What the operating system and the libraries outside this repository answer:
  the working directory (or the error of \<open>os.Getwd\<close>), the \<open>GOPATH\<close> variable, the
  names of the packages \<open>parser.ParseDir\<close> finds in the non-test files of a directory,
  the error of parsing \<open>moqTemplate\<close> if any, the loader's answer for an import path
  (\<open>Inr None\<close> when \<open>lprog.Package\<close> is nil), the matches of \<open>filepath.Glob\<close> for a
  pattern among the files present, the template's output for a document
  (\<open>m.tmpl.Execute\<close>), the formatter's output (\<open>imports.Process\<close>), and the baseline
  import list \<open>moqImports\<close>, which is declared in a file outside these sources.
\<close>

record os_env =
  Getwd :: "string + string"
  GOPATH :: string
  ParseDir :: "string \<Rightarrow> string + string list"
  ParseTemplate :: "string option"
  Load :: "string \<Rightarrow> string + PackageInfo option"
  Glob :: "string \<Rightarrow> string list \<Rightarrow> string + string list"
  Execute :: "doc \<Rightarrow> string + string"
  Process :: "string \<Rightarrow> string + string"
  moqImports :: "string list"

text \<open>
  Go leaves the order in which \<open>range\<close> visits the keys of a map unspecified, and it
  differs from one loop to the next. A loop over a map takes the order of that run as an
  argument, \<open>order\<close>: the keys are visited in the order in which \<open>order\<close> lists them,
  and those it does not list come last. Every order of the keys is the result for some
  \<open>order\<close>, and every \<open>order\<close> gives an order of the keys.
\<close>

definition range_keys :: "'a list \<Rightarrow> 'a list \<Rightarrow> 'a list" where
  "range_keys order keys =
     filter (\<lambda>k. k \<in> set keys) (remdups order) @ filter (\<lambda>k. k \<notin> set order) keys"

text \<open>
  The files of the file system, by path, and the paths the system refuses to remove.
  \<open>os.Remove\<close> answers an error and leaves the file where it is for those, and for a
  path that does not exist.
\<close>

record filesys =
  files :: "string list"
  undeletable :: "string list"

definition os_Remove :: "string \<Rightarrow> filesys \<Rightarrow> string option \<times> filesys" where
  "os_Remove name fs =
     (if name \<in> set (files fs) then
        (if name \<in> set (undeletable fs) then (Some ''operation not permitted'', fs)
         else (None, fs\<lparr>files := removeAll name (files fs)\<rparr>))
      else (Some ''no such file or directory'', fs))"

text \<open>\<open>filepath.Abs\<close> on Unix.\<close>

definition Abs :: "os_env \<Rightarrow> string \<Rightarrow> string + string" where
  "Abs env p =
     (if HasPrefix p ''/'' then Inr (Clean p)
      else case Getwd env of Inl e \<Rightarrow> Inl e | Inr wd \<Rightarrow> Inr (Join [wd, p]))"

section \<open>The generator\<close>

text \<open>\<open>gopaths\<close>, \<open>stripGopath\<close> and \<open>pkgPath\<close> (moq.go, lines 351-389).\<close>

definition gopaths :: "os_env \<Rightarrow> string list" where
  "gopaths env = SplitList (GOPATH env)"

definition stripGopath :: "os_env \<Rightarrow> string \<Rightarrow> string" where
  "stripGopath env p =
     foldl (\<lambda>p gopath. TrimPrefix p (Join [gopath, ''src''] @ ''/'')) p (gopaths env)"

definition pkgPath :: "os_env \<Rightarrow> string \<Rightarrow> string + string" where
  "pkgPath env src =
     (case Abs env src of Inl e \<Rightarrow> Inl e | Inr absPath \<Rightarrow> Inr (stripGopath env absPath))"

text \<open>\<open>stripVendorPath\<close> (moq.go, lines 364-370).\<close>

definition stripVendorPath :: "string \<Rightarrow> string" where
  "stripVendorPath p =
     (let parts = Split p ''/vendor/''
      in if length parts = 1 then p else TrimLeft (Join (tl parts)) ''/'')"

text \<open>
  \<open>New\<close> (moq.go, lines 79-121). The loop over \<open>pkgs\<close> takes the first key, in the
  order of this run's \<open>range\<close>, that does not contain \<open>_test\<close>.
\<close>

definition New :: "os_env \<Rightarrow> string list \<Rightarrow> string \<Rightarrow> string \<Rightarrow> error + Mocker" where
  "New env order src packageName =
     (case ParseDir env src of
        Inl e \<Rightarrow> Inl (ParseDirError e)
      | Inr pkgs \<Rightarrow>
          (let packageName =
                 (if packageName = [] then
                    (case find (\<lambda>pkgName. \<not> Contains pkgName ''_test'') (range_keys order pkgs) of
                       None \<Rightarrow> packageName
                     | Some pkgName \<Rightarrow> pkgName)
                  else packageName)
           in if packageName = [] then Inl NoPackageName
              else
                (case pkgPath env src of
                   Inl e \<Rightarrow> Inl (AbsError e)
                 | Inr pkgPath' \<Rightarrow>
                     (case ParseTemplate env of
                        Some e \<Rightarrow> Inl (TemplateParseError e)
                      | None \<Rightarrow>
                          Inr \<lparr>m_src = src, m_pkgName = packageName,
                               m_pkgPath = Join [Dir pkgPath', packageName],
                               m_imports = []\<rparr>))))"

text \<open>
  \<open>removeOldMocks\<close> (moq.go, lines 123-136). The loop calls \<open>os.Remove\<close> for every
  match and drops what it returns.
\<close>

fun remove_each :: "string list \<Rightarrow> filesys \<Rightarrow> filesys" where
  "remove_each [] fs = fs"
| "remove_each (mock # oldMocks) fs = remove_each oldMocks (snd (os_Remove mock fs))"

definition removeOldMocks :: "os_env \<Rightarrow> string \<Rightarrow> filesys \<Rightarrow> string option \<times> filesys" where
  "removeOldMocks env srcFolder fs =
     (case Abs env srcFolder of
        Inl e \<Rightarrow> (Some e, fs)
      | Inr absPath \<Rightarrow>
          (case Glob env (Join [absPath, ''*_mock.go'']) (files fs) of
             Inl e \<Rightarrow> (Some e, fs)
           | Inr oldMocks \<Rightarrow> (None, remove_each oldMocks fs)))"

text \<open>\<open>pkgInfoFromPath\<close> (moq.go, lines 246-268).\<close>

definition pkgInfoFromPath :: "os_env \<Rightarrow> string \<Rightarrow> error + PackageInfo" where
  "pkgInfoFromPath env src =
     (case pkgPath env src of
        Inl e \<Rightarrow> Inl (AbsError e)
      | Inr pkgFull \<Rightarrow>
          (case Load env pkgFull of
             Inl e \<Rightarrow> Inl (LoadError e)
           | Inr None \<Rightarrow> Inl PackageNil
           | Inr (Some pkgInfo) \<Rightarrow> Inr pkgInfo))"

text \<open>
  \<open>Mock\<close> (moq.go, lines 139-208). \<open>mock_methods\<close> is the loop over the methods of
  one interface (lines 173-183), \<open>mock_names\<close> the loop over the requested names (lines
  161-185) with the document's objects and the flag \<open>mocksMethods\<close> as they stand, and
  \<open>mockDoc\<close> the construction of the document (lines 153-193).
\<close>

fun mock_methods :: "func list \<Rightarrow> Mocker \<Rightarrow> (error + method_desc list) \<times> Mocker" where
  "mock_methods [] m = (Inr [], m)"
| "mock_methods (meth # meths) m =
     (let sig = FuncSig meth
      in case extractArgs m sig (Params_sig sig) ''in%d'' of
           (Inl e, m1) \<Rightarrow> (Inl e, m1)
         | (Inr params, m1) \<Rightarrow>
             (case extractArgs m1 sig (Results_sig sig) ''out%d'' of
                (Inl e, m2) \<Rightarrow> (Inl e, m2)
              | (Inr returns, m2) \<Rightarrow>
                  (case mock_methods meths m2 of
                     (Inl e, m3) \<Rightarrow> (Inl e, m3)
                   | (Inr methods, m3) \<Rightarrow>
                       (Inr (\<lparr>MethodName = FuncName meth, Params = params,
                              Returns = returns\<rparr> # methods), m3))))"

fun mock_names ::
  "(string \<Rightarrow> object option) \<Rightarrow> string list \<Rightarrow> obj list \<Rightarrow> bool \<Rightarrow> Mocker
     \<Rightarrow> (error + obj list \<times> bool) \<times> Mocker"
where
  "mock_names lookup [] objects mocksMethods m = (Inr (objects, mocksMethods), m)"
| "mock_names lookup (n # name) objects mocksMethods m =
     (case lookup n of
        None \<Rightarrow> (Inl (NotFound n), m)
      | Some (OtherObject t) \<Rightarrow> (Inl (NotAnInterface n t), m)
      | Some (InterfaceObject meths) \<Rightarrow>
          (case mock_methods meths m of
             (Inl e, m') \<Rightarrow> (Inl e, m')
           | (Inr methods, m') \<Rightarrow>
               mock_names lookup name
                 (objects @ [\<lparr>InterfaceName = n, Methods = methods\<rparr>])
                 (if meths = [] then mocksMethods else True) m'))"

definition mockDoc ::
  "os_env \<Rightarrow> string list \<Rightarrow> PackageInfo \<Rightarrow> string list \<Rightarrow> Mocker \<Rightarrow> (error + doc) \<times> Mocker"
where
  "mockDoc env order pkgInfo name m =
     (case mock_names (Lookup pkgInfo) name [] False m of
        (Inl e, m') \<Rightarrow> (Inl e, m')
      | (Inr (objects, mocksMethods), m') \<Rightarrow>
          (Inr \<lparr>PackageName = m_pkgName m, Objects = objects,
                Imports = moqImports env @ (if mocksMethods then [''sync''] else [])
                          @ map stripVendorPath (range_keys order (m_imports m'))\<rparr>,
           m'))"

text \<open>
  The writer \<open>w\<close> is any state with a \<open>Write\<close> operation that answers an error or
  none and the writer's new state.
\<close>

definition Mock ::
  "os_env \<Rightarrow> string list \<Rightarrow> (string \<Rightarrow> 'w \<Rightarrow> string option \<times> 'w) \<Rightarrow> 'w \<Rightarrow> string list
     \<Rightarrow> Mocker \<Rightarrow> filesys \<Rightarrow> error option \<times> Mocker \<times> filesys \<times> 'w"
where
  "Mock env order Write w name m fs =
     (if name = [] then (Some MustSpecifyInterface, m, fs, w)
      else
        (case removeOldMocks env (m_src m) fs of
           (Some e, fs') \<Rightarrow> (Some CleanupFailed, m, fs', w)
         | (None, fs') \<Rightarrow>
             (case pkgInfoFromPath env (m_src m) of
                Inl e \<Rightarrow> (Some e, m, fs', w)
              | Inr pkgInfo \<Rightarrow>
                  (case mockDoc env order pkgInfo name m of
                     (Inl e, m') \<Rightarrow> (Some e, m', fs', w)
                   | (Inr d, m') \<Rightarrow>
                       (case Execute env d of
                          Inl e \<Rightarrow> (Some (TemplateError e), m', fs', w)
                        | Inr buf \<Rightarrow>
                            (case Process env buf of
                               Inl e \<Rightarrow> (Some (GoimportsError e), m', fs', w)
                             | Inr formatted \<Rightarrow>
                                 (case Write formatted w of
                                    (Some e, w') \<Rightarrow> (Some (WriteError e), m', fs', w')
                                  | (None, w') \<Rightarrow> (None, m', fs', w'))))))))"

section \<open>Notions used in the statements\<close>

text \<open>
  \<open>kept m m'\<close>: the Mocker \<open>m'\<close> is \<open>m\<close> with, at most, more import paths.
\<close>

definition kept :: "Mocker \<Rightarrow> Mocker \<Rightarrow> bool" where
  "kept m m' =
     (m_src m' = m_src m \<and> m_pkgName m' = m_pkgName m \<and> m_pkgPath m' = m_pkgPath m \<and>
      set (m_imports m) \<subseteq> set (m_imports m'))"

text \<open>The packages of the named types that occur in a type.\<close>

fun packages_of :: "gotype \<Rightarrow> package list" where
  "packages_of (Basic name) = []"
| "packages_of (Named None name) = []"
| "packages_of (Named (Some pkg) name) = [pkg]"
| "packages_of (Pointer t) = packages_of t"
| "packages_of (Slice t) = packages_of t"
| "packages_of (Array n t) = packages_of t"
| "packages_of (Map k v) = packages_of k @ packages_of v"
| "packages_of (Chan d t) = packages_of t"

text \<open>
  The packages that the generator meets in one invocation, in the order in which
  \<open>TypeString\<close> is called for them: those of the types of a tuple, of the parameters
  and then the results of a method, and of the methods of the interfaces found under
  the requested names.
\<close>

definition var_packages :: "var list \<Rightarrow> package list" where
  "var_packages list = concat (map (\<lambda>v. packages_of (VarType v)) list)"

definition func_packages :: "func \<Rightarrow> package list" where
  "func_packages f =
     var_packages (Params_sig (FuncSig f)) @ var_packages (Results_sig (FuncSig f))"

definition referenced :: "(string \<Rightarrow> object option) \<Rightarrow> string list \<Rightarrow> package list" where
  "referenced lookup name =
     concat (map (\<lambda>n. case lookup n of
                         Some (InterfaceObject meths) \<Rightarrow> concat (map func_packages meths)
                       | _ \<Rightarrow> []) name)"

text \<open>
  The paths that \<open>packageQualifier\<close> records for a list of packages when the Mocker's
  identity is \<open>self\<close>: one for every package whose identity is not \<open>self\<close>.
\<close>

definition recorded :: "string \<Rightarrow> package list \<Rightarrow> string list" where
  "recorded self pkgs =
     map (\<lambda>p. if Path p = ''.'' then self else Path p)
       (filter (\<lambda>p. Join [Dir (Path p), PkgName p] \<noteq> self) pkgs)"

text \<open>
  A type with the named types of the package \<open>own\<close> written as bare names, the way
  the types of the universe are.
\<close>

fun drop_pkg :: "package \<Rightarrow> gotype \<Rightarrow> gotype" where
  "drop_pkg own (Basic name) = Basic name"
| "drop_pkg own (Named None name) = Named None name"
| "drop_pkg own (Named (Some pkg) name) =
     (if pkg = own then Named None name else Named (Some pkg) name)"
| "drop_pkg own (Pointer t) = Pointer (drop_pkg own t)"
| "drop_pkg own (Slice t) = Slice (drop_pkg own t)"
| "drop_pkg own (Array n t) = Array n (drop_pkg own t)"
| "drop_pkg own (Map k v) = Map (drop_pkg own k) (drop_pkg own v)"
| "drop_pkg own (Chan d t) = Chan d (drop_pkg own t)"

text \<open>
  A signature as go/types builds it: \<open>types.NewSignature\<close> refuses a variadic
  signature that has no parameter or whose last parameter is not of a slice type.
\<close>

definition is_slice :: "gotype \<Rightarrow> bool" where
  "is_slice t = (case t of Slice u \<Rightarrow> True | _ \<Rightarrow> False)"

definition wf_sig :: "signature \<Rightarrow> bool" where
  "wf_sig sig =
     (if Variadic_sig sig
      then Params_sig sig \<noteq> [] \<and> is_slice (VarType (last (Params_sig sig)))
      else True)"

section \<open>An example package\<close>

text \<open>
  A package \<open>example.com/p\<close> below \<open>GOPATH\<close>, with a few interfaces, an environment
  that serves it, and a file system that holds a generated file the system refuses to
  remove. The theorems below are run on them.
\<close>

text \<open>
  A matcher for \<open>filepath.Glob\<close> patterns in which \<open>*\<close> is the only meta-character:
  \<open>*\<close> matches any run of bytes other than the separator.
\<close>

fun Match :: "string \<Rightarrow> string \<Rightarrow> bool" where
  "Match [] name = (name = [])"
| "Match (p # ps) name =
     (if p = CHR ''*'' then
        (Match ps name \<or>
         (case name of [] \<Rightarrow> False | c # cs \<Rightarrow> c \<noteq> CHR ''/'' \<and> Match (p # ps) cs))
      else (case name of [] \<Rightarrow> False | c # cs \<Rightarrow> c = p \<and> Match ps cs))"

definition self_pkg :: package where
  "self_pkg = Package ''example.com/p'' ''p''"

definition context_pkg :: package where
  "context_pkg = Package ''context'' ''context''"

definition sync_pkg :: package where
  "sync_pkg = Package ''sync'' ''sync''"

text \<open>
  \<^verbatim>\<open>Store\<close> has the methods \<^verbatim>\<open>Get(context.Context, string) (*Person, error)\<close>
  and \<^verbatim>\<open>Put(ctx context.Context, person *Person) (err error)\<close>.
\<close>

definition store_methods :: "func list" where
  "store_methods =
     [Func ''Get''
        (Signature False
           [Var [] (Named (Some context_pkg) ''Context''), Var [] (Basic ''string'')]
           [Var [] (Pointer (Named (Some self_pkg) ''Person'')), Var [] (Named None ''error'')]),
      Func ''Put''
        (Signature False
           [Var ''ctx'' (Named (Some context_pkg) ''Context''),
            Var ''person'' (Pointer (Named (Some self_pkg) ''Person''))]
           [Var ''err'' (Named None ''error'')])]"

text \<open>
  \<^verbatim>\<open>Locker\<close> is \<^verbatim>\<open>Use(mu *sync.Mutex)\<close>, \<^verbatim>\<open>Tagger\<close> is
  \<^verbatim>\<open>Tags(prefixes ...string) []string\<close>, and \<^verbatim>\<open>Picker\<close> is
  \<^verbatim>\<open>Pick(xs ...int) T\<close> for a type \<^verbatim>\<open>T\<close> of the package itself.
\<close>

definition tags_sig :: signature where
  "tags_sig =
     Signature True [Var ''prefixes'' (Slice (Basic ''string''))]
       [Var [] (Slice (Basic ''string''))]"

definition pick_sig :: signature where
  "pick_sig =
     Signature True [Var ''xs'' (Slice (Basic ''int''))] [Var [] (Named (Some self_pkg) ''T'')]"

definition example_info :: PackageInfo where
  "example_info =
     \<lparr>Pkg = self_pkg,
      Lookup = map_of
        [(''Store'', InterfaceObject store_methods),
         (''Empty'', InterfaceObject []),
         (''Locker'', InterfaceObject
            [Func ''Use''
               (Signature False [Var ''mu'' (Pointer (Named (Some sync_pkg) ''Mutex''))] [])]),
         (''Tagger'', InterfaceObject [Func ''Tags'' tags_sig]),
         (''Picker'', InterfaceObject [Func ''Pick'' pick_sig]),
         (''Person'', OtherObject ''example.com/p.Person'')]\<rparr>"

definition example_env :: os_env where
  "example_env =
     \<lparr>Getwd = Inr ''/go/src/example.com/p'',
      GOPATH = ''/go'',
      ParseDir = (\<lambda>dir. Inr [''p'']),
      ParseTemplate = None,
      Load = (\<lambda>path. if path = ''example.com/p'' then Inr (Some example_info)
                      else Inl ''cannot find package''),
      Glob = (\<lambda>pattern names. Inr (filter (Match pattern) names)),
      Execute = (\<lambda>d. Inr (''package '' @ PackageName d)),
      Process = (\<lambda>s. Inr s),
      moqImports = []\<rparr>"

text \<open>The Mocker that \<open>New\<close> makes for the directory \<open>.\<close> in this environment.\<close>

definition example_mocker :: Mocker where
  "example_mocker =
     \<lparr>m_src = ''.'', m_pkgName = ''p'', m_pkgPath = ''example.com/p'', m_imports = []\<rparr>"

text \<open>A writer that appends to a buffer and never fails.\<close>

definition buffer_Write :: "string \<Rightarrow> string \<Rightarrow> string option \<times> string" where
  "buffer_Write b w = (None, w @ b)"

definition example_fs :: filesys where
  "example_fs =
     \<lparr>files = [''/go/src/example.com/p/store.go'', ''/go/src/example.com/p/store_mock.go''],
      undeletable = [''/go/src/example.com/p/store_mock.go'']\<rparr>"

text \<open>
  The same environment for a directory whose non-test files declare two packages,
  \<^verbatim>\<open>p\<close> and \<^verbatim>\<open>main\<close> (a generator program kept beside the package, say).
\<close>

definition two_package_env :: os_env where
  "two_package_env = example_env\<lparr>ParseDir := (\<lambda>dir. Inr [''p'', ''main''])\<rparr>"

text \<open>
  The Mocker after one invocation of \<open>Mock\<close> for \<^verbatim>\<open>Store\<close>: the path of the
  package \<^verbatim>\<open>context\<close> has been recorded.
\<close>

definition store_mocker :: Mocker where
  "store_mocker = example_mocker\<lparr>m_imports := [''context'']\<rparr>"

section \<open>Synthesized parameter names\<close>

lemma Sprintf_in: "Sprintf ''in%d'' n = ''in'' @ itoa n"
  by simp

lemma Sprintf_out: "Sprintf ''out%d'' n = ''out'' @ itoa n"
  by simp

text \<open>
  The loop of \<open>extractArgs\<close> returns one descriptor for each element of the tuple, and
  the name of the descriptor at offset \<open>k\<close> is the variable's own name, or the format
  applied to \<open>ii + k + 1\<close> when the variable has none.
\<close>

lemma extractArgs_loop_names:
  "extractArgs_loop sig listLen nameFormat ii list m = (Inr ps, m') \<Longrightarrow>
     length ps = length list \<and>
     (\<forall>k < length list.
        Name (ps ! k) =
          (if VarName (list ! k) = [] then Sprintf nameFormat (ii + k + 1)
           else VarName (list ! k)))"
proof (induction list arbitrary: ii m ps)
  case Nil
  then show ?case by simp
next
  case (Cons p rest)
  obtain typename m1 where ts: "TypeString (VarType p) m = (typename, m1)"
    by (cases "TypeString (VarType p) m")
  from Cons.prems ts obtain ps' where
    rec: "extractArgs_loop sig listLen nameFormat (ii + 1) rest m1 = (Inr ps', m')" and
    ps: "ps = \<lparr>Name = (if VarName p = [] then Sprintf nameFormat (ii + 1) else VarName p),
                Type = typename,
                Variadic = (Variadic_sig sig \<and> ii = listLen - 1 \<and> take 2 typename = ''[]'')\<rparr>
              # ps'"
    by (auto simp: Let_def split: if_splits prod.splits sum.splits)
  from Cons.IH[OF rec] have len: "length ps' = length rest" and
    names: "\<forall>k < length rest. Name (ps' ! k) =
          (if VarName (rest ! k) = [] then Sprintf nameFormat (ii + 1 + k + 1)
           else VarName (rest ! k))"
    by auto
  show ?case
  proof (intro conjI allI impI)
    show "length ps = length (p # rest)" using ps len by simp
  next
    fix k assume "k < length (p # rest)"
    then show "Name (ps ! k) =
          (if VarName ((p # rest) ! k) = [] then Sprintf nameFormat (ii + k + 1)
           else VarName ((p # rest) ! k))"
      using ps names by (cases k) auto
  qed
qed

lemma mock_methods_length:
  "mock_methods meths m = (Inr methods, m') \<Longrightarrow> length methods = length meths"
  by (induction meths arbitrary: m methods)
     (auto simp: Let_def split: prod.splits sum.splits)

text \<open>
  Every method of the result comes from the two calls of \<open>extractArgs\<close> on the
  signature of the method at the same position.
\<close>

lemma mock_methods_nth:
  "mock_methods meths m = (Inr methods, m') \<Longrightarrow> j < length meths \<Longrightarrow>
     \<exists>m1 m2 m3.
        extractArgs m1 (FuncSig (meths ! j)) (Params_sig (FuncSig (meths ! j))) ''in%d''
          = (Inr (Params (methods ! j)), m2) \<and>
        extractArgs m2 (FuncSig (meths ! j)) (Results_sig (FuncSig (meths ! j))) ''out%d''
          = (Inr (Returns (methods ! j)), m3) \<and>
        MethodName (methods ! j) = FuncName (meths ! j)"
proof (induction meths arbitrary: m methods j)
  case Nil
  then show ?case by simp
next
  case (Cons meth meths)
  from Cons.prems(1) obtain params m1 returns m2 methods' where
    a: "extractArgs m (FuncSig meth) (Params_sig (FuncSig meth)) ''in%d'' = (Inr params, m1)" and
    b: "extractArgs m1 (FuncSig meth) (Results_sig (FuncSig meth)) ''out%d''
          = (Inr returns, m2)" and
    c: "mock_methods meths m2 = (Inr methods', m')" and
    d: "methods = \<lparr>MethodName = FuncName meth, Params = params, Returns = returns\<rparr>
                  # methods'"
    by (auto simp: Let_def split: prod.splits sum.splits)
  show ?case
  proof (cases j)
    case 0
    with a b d show ?thesis by auto
  next
    case (Suc j')
    with Cons.prems(2) have "j' < length meths" by simp
    from Cons.IH[OF c this] Suc d show ?thesis by simp
  qed
qed

text \<open>
  The loop over the names appends one object for each name, sets the flag exactly when
  one of the new objects has a method, and leaves the Mocker as it was while the flag is
  not set.
\<close>

lemma mock_names_flag:
  "mock_names lookup name objects mocksMethods m = (Inr (objects', mocksMethods'), m') \<Longrightarrow>
     (\<exists>new. objects' = objects @ new \<and>
            (mocksMethods' \<longleftrightarrow> mocksMethods \<or> (\<exists>ob \<in> set new. Methods ob \<noteq> []))) \<and>
     (\<not> mocksMethods' \<longrightarrow> m' = m)"
proof (induction name arbitrary: objects mocksMethods m)
  case Nil
  then show ?case by simp
next
  case (Cons n name)
  from Cons.prems obtain meths methods m1 where
    l: "lookup n = Some (InterfaceObject meths)" and
    a: "mock_methods meths m = (Inr methods, m1)" and
    rec: "mock_names lookup name (objects @ [\<lparr>InterfaceName = n, Methods = methods\<rparr>])
            (if meths = [] then mocksMethods else True) m1 = (Inr (objects', mocksMethods'), m')"
    by (auto split: option.splits object.splits prod.splits sum.splits)
  from mock_methods_length[OF a] have len: "methods = [] \<longleftrightarrow> meths = []" by auto
  from Cons.IH[OF rec] obtain new where
    o: "objects' = (objects @ [\<lparr>InterfaceName = n, Methods = methods\<rparr>]) @ new" and
    f: "mocksMethods' \<longleftrightarrow> (if meths = [] then mocksMethods else True) \<or> (\<exists>ob \<in> set new. Methods ob \<noteq> [])" and
    s: "\<not> mocksMethods' \<longrightarrow> m' = m1"
    by blast
  have "objects' = objects @ (\<lparr>InterfaceName = n, Methods = methods\<rparr> # new)" using o by simp
  moreover have "mocksMethods' \<longleftrightarrow> mocksMethods \<or> (\<exists>ob \<in> set (\<lparr>InterfaceName = n, Methods = methods\<rparr> # new). Methods ob \<noteq> [])"
    using f len by auto
  moreover have "\<not> mocksMethods' \<longrightarrow> m' = m"
  proof
    assume nf: "\<not> mocksMethods'"
    with s have "m' = m1" by simp
    moreover from nf f have "meths = []" by (auto split: if_splits)
    with a have "m1 = m" by simp
    ultimately show "m' = m" by simp
  qed
  ultimately show ?case by blast
qed

text \<open>
  The object at the position of a requested name carries that name and the methods that
  \<open>mock_methods\<close> made of the methods of the interface found under it.
\<close>

lemma mock_names_nth:
  "mock_names lookup name objects mocksMethods m = (Inr (objects', mocksMethods'), m') \<Longrightarrow>
   i < length name \<Longrightarrow>
     \<exists>meths m1 m2.
        lookup (name ! i) = Some (InterfaceObject meths) \<and>
        mock_methods meths m1 = (Inr (Methods (objects' ! (length objects + i))), m2) \<and>
        InterfaceName (objects' ! (length objects + i)) = name ! i"
proof (induction name arbitrary: objects mocksMethods m i)
  case Nil
  then show ?case by simp
next
  case (Cons n name)
  from Cons.prems(1) obtain meths methods m1 where
    l: "lookup n = Some (InterfaceObject meths)" and
    a: "mock_methods meths m = (Inr methods, m1)" and
    rec: "mock_names lookup name (objects @ [\<lparr>InterfaceName = n, Methods = methods\<rparr>])
            (if meths = [] then mocksMethods else True) m1 = (Inr (objects', mocksMethods'), m')"
    by (auto split: option.splits object.splits prod.splits sum.splits)
  from mock_names_flag[OF rec] obtain new where
    o: "objects' = (objects @ [\<lparr>InterfaceName = n, Methods = methods\<rparr>]) @ new"
    by blast
  show ?case
  proof (cases i)
    case 0
    from o have "objects' ! (length objects + 0) = \<lparr>InterfaceName = n, Methods = methods\<rparr>"
      by (simp add: nth_append)
    with 0 l a show ?thesis by auto
  next
    case (Suc i')
    with Cons.prems(2) have "i' < length name" by simp
    from Cons.IH[OF rec this] Suc show ?thesis by simp
  qed
qed

text \<open>
  Claim C2. In the document built for the requested names, take the \<open>j\<close>-th method of
  the interface found under the \<open>i\<close>-th name. Its descriptor keeps the method's name
  and has as many inputs and outputs as the signature has parameters and results; the
  input at offset \<open>k\<close> (position \<open>k + 1\<close>) is named \<open>in\<close> followed by the decimal of
  \<open>k + 1\<close> when the parameter has no name, the output at offset \<open>k\<close> is named
  \<open>out\<close> followed by it when the result has none, and a parameter or result that
  has a name keeps it unchanged.
\<close>

theorem C2_positional_names:
  assumes "mockDoc env order pkgInfo name m = (Inr d, m')"
      and "i < length name"
      and "Lookup pkgInfo (name ! i) = Some (InterfaceObject meths)"
      and "j < length meths"
  shows "MethodName (Methods (Objects d ! i) ! j) = FuncName (meths ! j) \<and>
         length (Params (Methods (Objects d ! i) ! j)) = length (Params_sig (FuncSig (meths ! j))) \<and>
         length (Returns (Methods (Objects d ! i) ! j)) = length (Results_sig (FuncSig (meths ! j))) \<and>
         (\<forall>k < length (Params_sig (FuncSig (meths ! j))).
            Name (Params (Methods (Objects d ! i) ! j) ! k) =
              (if VarName (Params_sig (FuncSig (meths ! j)) ! k) = [] then ''in'' @ itoa (k + 1)
               else VarName (Params_sig (FuncSig (meths ! j)) ! k))) \<and>
         (\<forall>k < length (Results_sig (FuncSig (meths ! j))).
            Name (Returns (Methods (Objects d ! i) ! j) ! k) =
              (if VarName (Results_sig (FuncSig (meths ! j)) ! k) = [] then ''out'' @ itoa (k + 1)
               else VarName (Results_sig (FuncSig (meths ! j)) ! k)))"
proof -
  from assms(1) obtain objects mocksMethods where
    run: "mock_names (Lookup pkgInfo) name [] False m = (Inr (objects, mocksMethods), m')" and
    d: "Objects d = objects"
    by (auto simp: mockDoc_def split: prod.splits sum.splits)
  from mock_names_nth[OF run assms(2)] assms(3) d obtain m1 m2 where
    ms: "mock_methods meths m1 = (Inr (Methods (Objects d ! i)), m2)"
    by auto
  from mock_methods_nth[OF ms assms(4)] obtain m3 m4 m5 where
    a: "extractArgs m3 (FuncSig (meths ! j)) (Params_sig (FuncSig (meths ! j))) ''in%d''
          = (Inr (Params (Methods (Objects d ! i) ! j)), m4)" and
    b: "extractArgs m4 (FuncSig (meths ! j)) (Results_sig (FuncSig (meths ! j))) ''out%d''
          = (Inr (Returns (Methods (Objects d ! i) ! j)), m5)" and
    c: "MethodName (Methods (Objects d ! i) ! j) = FuncName (meths ! j)"
    by blast
  from extractArgs_loop_names[OF a[unfolded extractArgs_def]]
       extractArgs_loop_names[OF b[unfolded extractArgs_def]] c
  show ?thesis by (simp only: Sprintf_in Sprintf_out add_0) simp
qed

text \<open>
  The theorem for the names \<^verbatim>\<open>Empty\<close> and \<^verbatim>\<open>Store\<close>, at the two methods of
  \<^verbatim>\<open>Store\<close>: the second input of \<^verbatim>\<open>Get\<close> is named \<^verbatim>\<open>in2\<close> and its second
  output \<^verbatim>\<open>out2\<close>; the second input of \<^verbatim>\<open>Put\<close> keeps its name
  \<^verbatim>\<open>person\<close>.
\<close>

theorem C2_positional_names_witness:
  "Objects (projr (fst (mockDoc example_env [] example_info [''Empty'', ''Store''] example_mocker)))
     = [\<lparr>InterfaceName = ''Empty'', Methods = []\<rparr>,
        \<lparr>InterfaceName = ''Store'',
         Methods =
           [\<lparr>MethodName = ''Get'',
             Params = [\<lparr>Name = ''in1'', Type = ''context.Context'', Variadic = False\<rparr>,
                       \<lparr>Name = ''in2'', Type = ''string'', Variadic = False\<rparr>],
             Returns = [\<lparr>Name = ''out1'', Type = ''*Person'', Variadic = False\<rparr>,
                        \<lparr>Name = ''out2'', Type = ''error'', Variadic = False\<rparr>]\<rparr>,
            \<lparr>MethodName = ''Put'',
             Params = [\<lparr>Name = ''ctx'', Type = ''context.Context'', Variadic = False\<rparr>,
                       \<lparr>Name = ''person'', Type = ''*Person'', Variadic = False\<rparr>],
             Returns = [\<lparr>Name = ''err'', Type = ''error'', Variadic = False\<rparr>]\<rparr>]\<rparr>] \<and>
   Name (Params (Methods (Objects (projr (fst (mockDoc example_env [] example_info
           [''Empty'', ''Store''] example_mocker))) ! 1) ! 0) ! 1) = ''in'' @ itoa (1 + 1) \<and>
   Name (Returns (Methods (Objects (projr (fst (mockDoc example_env [] example_info
           [''Empty'', ''Store''] example_mocker))) ! 1) ! 0) ! 1) = ''out'' @ itoa (1 + 1) \<and>
   Name (Params (Methods (Objects (projr (fst (mockDoc example_env [] example_info
           [''Empty'', ''Store''] example_mocker))) ! 1) ! 1) ! 1) = ''person''"
proof -
  let ?r = "mockDoc example_env [] example_info [''Empty'', ''Store''] example_mocker"
  let ?d = "projr (fst ?r)"
  have run: "?r = (Inr ?d, snd ?r)"
    by code_simp
  have i: "1 < length [''Empty'', ''Store'']"
    by simp
  have l: "Lookup example_info ([''Empty'', ''Store''] ! 1) = Some (InterfaceObject store_methods)"
    by code_simp
  have j: "0 < length store_methods" "1 < length store_methods"
    by code_simp+
  note get = C2_positional_names[OF run i l j(1)]
  note put = C2_positional_names[OF run i l j(2)]
  have k: "1 < length (Params_sig (FuncSig (store_methods ! 0)))"
          "1 < length (Results_sig (FuncSig (store_methods ! 0)))"
          "1 < length (Params_sig (FuncSig (store_methods ! 1)))"
    by code_simp+
  have unnamed: "VarName (Params_sig (FuncSig (store_methods ! 0)) ! 1) = []"
                "VarName (Results_sig (FuncSig (store_methods ! 0)) ! 1) = []"
    by code_simp+
  have named: "VarName (Params_sig (FuncSig (store_methods ! 1)) ! 1) = ''person''"
    by code_simp
  from get k(1) unnamed(1)
  have a: "Name (Params (Methods (Objects ?d ! 1) ! 0) ! 1) = ''in'' @ itoa (1 + 1)"
    by (metis (no_types, lifting))
  from get k(2) unnamed(2)
  have b: "Name (Returns (Methods (Objects ?d ! 1) ! 0) ! 1) = ''out'' @ itoa (1 + 1)"
    by (metis (no_types, lifting))
  from put k(3) named
  have c: "Name (Params (Methods (Objects ?d ! 1) ! 1) ! 1) = ''person''"
    by (metis (no_types, lifting) list.distinct(1))
  have v: "Objects ?d
     = [\<lparr>InterfaceName = ''Empty'', Methods = []\<rparr>,
        \<lparr>InterfaceName = ''Store'',
         Methods =
           [\<lparr>MethodName = ''Get'',
             Params = [\<lparr>Name = ''in1'', Type = ''context.Context'', Variadic = False\<rparr>,
                       \<lparr>Name = ''in2'', Type = ''string'', Variadic = False\<rparr>],
             Returns = [\<lparr>Name = ''out1'', Type = ''*Person'', Variadic = False\<rparr>,
                        \<lparr>Name = ''out2'', Type = ''error'', Variadic = False\<rparr>]\<rparr>,
            \<lparr>MethodName = ''Put'',
             Params = [\<lparr>Name = ''ctx'', Type = ''context.Context'', Variadic = False\<rparr>,
                       \<lparr>Name = ''person'', Type = ''*Person'', Variadic = False\<rparr>],
             Returns = [\<lparr>Name = ''err'', Type = ''error'', Variadic = False\<rparr>]\<rparr>]\<rparr>]"
    by code_simp
  from v a b c show ?thesis by (intro conjI)
qed

section \<open>All or nothing\<close>

text \<open>
  Claim C8. When \<open>Mock\<close> fails, for whatever reason other than the writer's own error
  (a name that is absent or not an interface, a failure of the template or of the
  formatter, and every failure before them), the writer is in the state it was in
  before the call: \<open>Write\<close> is reached only after every requested name has been
  processed and the document has been rendered and formatted.
\<close>

theorem C8_all_or_nothing:
  assumes "Mock env order Write w name m fs = (Some e, m', fs', w')"
      and "\<forall>msg. e \<noteq> WriteError msg"
  shows "w' = w"
  using assms unfolding Mock_def
  by (auto split: if_splits prod.splits sum.splits option.splits)

text \<open>
  Four names of which the third is absent: the call fails with \<open>NotFound\<close> and the
  buffer, empty before, is empty after.
\<close>

theorem C8_all_or_nothing_witness:
  "fst (Mock example_env [] buffer_Write [] [''Store'', ''Empty'', ''Missing'', ''Locker'']
          example_mocker example_fs) = Some (NotFound ''Missing'') \<and>
   snd (snd (snd (Mock example_env [] buffer_Write [] [''Store'', ''Empty'', ''Missing'', ''Locker'']
          example_mocker example_fs))) = []"
proof -
  let ?r = "Mock example_env [] buffer_Write [] [''Store'', ''Empty'', ''Missing'', ''Locker'']
              example_mocker example_fs"
  have run: "?r = (Some (NotFound ''Missing''), fst (snd ?r), fst (snd (snd ?r)),
                   snd (snd (snd ?r)))"
    by code_simp
  have e: "\<forall>msg. NotFound ''Missing'' \<noteq> WriteError msg"
    by simp
  from C8_all_or_nothing[OF run e] have w: "snd (snd (snd ?r)) = []" .
  from run have f: "fst ?r = Some (NotFound ''Missing'')"
    by (metis fst_conv)
  from f w show ?thesis by (intro conjI)
qed

section \<open>The import set\<close>

text \<open>
  Nothing in the generator removes a path from the import map or changes another field
  of the Mocker: every operation returns a Mocker that is \<open>kept\<close>.
\<close>

lemma kept_refl: "kept m m"
  by (simp add: kept_def)

lemma kept_trans: "kept m m1 \<Longrightarrow> kept m1 m2 \<Longrightarrow> kept m m2"
  by (auto simp: kept_def)

lemma packageQualifier_kept: "kept m (snd (packageQualifier pkg m))"
  by (auto simp: packageQualifier_def kept_def Let_def)

lemma TypeString_kept: "kept m (snd (TypeString t m))"
proof (induction t arbitrary: m)
  case (Basic name)
  show ?case by (simp add: kept_refl)
next
  case (Named p name)
  show ?case
  proof (cases p)
    case None
    then show ?thesis by (simp add: kept_refl)
  next
    case (Some pkg)
    obtain q m1 where q: "packageQualifier pkg m = (q, m1)" by (cases "packageQualifier pkg m")
    from packageQualifier_kept[of m pkg] q have "kept m m1" by simp
    with Some q show ?thesis by simp
  qed
next
  case (Pointer t)
  obtain s m1 where t: "TypeString t m = (s, m1)" by (cases "TypeString t m")
  from Pointer.IH[of m] t show ?case by simp
next
  case (Slice t)
  obtain s m1 where t: "TypeString t m = (s, m1)" by (cases "TypeString t m")
  from Slice.IH[of m] t show ?case by simp
next
  case (Array n t)
  obtain s m1 where t: "TypeString t m = (s, m1)" by (cases "TypeString t m")
  from Array.IH[of m] t show ?case by simp
next
  case (Map k v)
  obtain ks m1 where k: "TypeString k m = (ks, m1)" by (cases "TypeString k m")
  obtain vs m2 where v: "TypeString v m1 = (vs, m2)" by (cases "TypeString v m1")
  from Map.IH(1)[of m] k have "kept m m1" by simp
  moreover from Map.IH(2)[of m1] v have "kept m1 m2" by simp
  ultimately show ?case using k v by (simp add: kept_trans)
next
  case (Chan d t)
  obtain s m1 where t: "TypeString t m = (s, m1)" by (cases "TypeString t m")
  from Chan.IH[of m] t have "kept m m1" by simp
  then show ?case using t by (simp split: chandir.splits gotype.splits)
qed

lemma extractArgs_loop_kept:
  "kept m (snd (extractArgs_loop sig listLen nameFormat ii list m))"
proof (induction list arbitrary: ii m)
  case Nil
  then show ?case by (simp add: kept_refl)
next
  case (Cons p rest)
  obtain typename m1 where ts: "TypeString (VarType p) m = (typename, m1)"
    by (cases "TypeString (VarType p) m")
  from TypeString_kept[of m "VarType p"] ts have a: "kept m m1" by simp
  from Cons.IH[where ii = "ii + 1" and m = m1] have b: "kept m1 (snd (extractArgs_loop sig listLen nameFormat (ii + 1) rest m1))" .
  from kept_trans[OF a b] a show ?case using ts
    by (auto simp: Let_def split: prod.splits sum.splits)
qed

lemma extractArgs_kept: "kept m (snd (extractArgs m sig list nameFormat))"
  by (simp add: extractArgs_def extractArgs_loop_kept)

lemma mock_methods_kept: "kept m (snd (mock_methods meths m))"
proof (induction meths arbitrary: m)
  case Nil
  then show ?case by (simp add: kept_refl)
next
  case (Cons meth meths)
  let ?sig = "FuncSig meth"
  obtain r1 m1 where a: "extractArgs m ?sig (Params_sig ?sig) ''in%d'' = (r1, m1)"
    by (cases "extractArgs m ?sig (Params_sig ?sig) ''in%d''")
  obtain r2 m2 where b: "extractArgs m1 ?sig (Results_sig ?sig) ''out%d'' = (r2, m2)"
    by (cases "extractArgs m1 ?sig (Results_sig ?sig) ''out%d''")
  obtain r3 m3 where c: "mock_methods meths m2 = (r3, m3)"
    by (cases "mock_methods meths m2")
  from extractArgs_kept[of m ?sig "Params_sig ?sig" "''in%d''"] a have k1: "kept m m1" by simp
  from extractArgs_kept[of m1 ?sig "Results_sig ?sig" "''out%d''"] b have k2: "kept m1 m2" by simp
  from Cons.IH[of m2] c have k3: "kept m2 m3" by simp
  note k12 = kept_trans[OF k1 k2]
  note k13 = kept_trans[OF k12 k3]
  show ?case using a b c k1 k12 k13
    by (auto simp: Let_def split: sum.splits)
qed

lemma mock_names_kept: "kept m (snd (mock_names lookup name objects mocksMethods m))"
proof (induction name arbitrary: objects mocksMethods m)
  case Nil
  then show ?case by (simp add: kept_refl)
next
  case (Cons n name)
  show ?case
  proof (cases "lookup n")
    case None
    then show ?thesis by (simp add: kept_refl)
  next
    case (Some ob)
    show ?thesis
    proof (cases ob)
      case (OtherObject t)
      with Some show ?thesis by (simp add: kept_refl)
    next
      case (InterfaceObject meths)
      obtain r m1 where a: "mock_methods meths m = (r, m1)" by (cases "mock_methods meths m")
      from mock_methods_kept[of m meths] a have k1: "kept m m1" by simp
      show ?thesis
      proof (cases r)
        case (Inl e)
        with Some InterfaceObject a k1 show ?thesis by simp
      next
        case (Inr methods)
        from Cons.IH[of m1] kept_trans[OF k1]
        show ?thesis using Some InterfaceObject a Inr by simp
      qed
    qed
  qed
qed

lemma mockDoc_kept: "kept m (snd (mockDoc env order pkgInfo name m))"
  using mock_names_kept[of m "Lookup pkgInfo" name "[]" False]
  by (auto simp: mockDoc_def split: prod.splits sum.splits)

lemma Mock_kept: "kept m (fst (snd (Mock env order Write w name m fs)))"
proof (cases "name = []")
  case True
  then show ?thesis by (simp add: Mock_def kept_refl)
next
  case False
  show ?thesis
  proof (cases "pkgInfoFromPath env (m_src m)")
    case (Inl e)
    with False show ?thesis
      by (auto simp: Mock_def kept_refl split: prod.splits option.splits)
  next
    case (Inr pkgInfo)
    obtain r m1 where d: "mockDoc env order pkgInfo name m = (r, m1)"
      by (cases "mockDoc env order pkgInfo name m")
    from mockDoc_kept[of m env order pkgInfo name] d have "kept m m1" by simp
    with False Inr d show ?thesis
      by (auto simp: Mock_def kept_refl split: prod.splits sum.splits option.splits)
  qed
qed

lemma set_range_keys: "set (range_keys order keys) = set keys"
  by (auto simp: range_keys_def)

lemma distinct_range_keys: "distinct keys \<Longrightarrow> distinct (range_keys order keys)"
  by (auto simp: range_keys_def)

lemma range_keys_any_order:
  "distinct order \<Longrightarrow> set order = set keys \<Longrightarrow> range_keys order keys = order"
  by (simp add: range_keys_def)

lemma New_imports: "New env order src pn = Inr m \<Longrightarrow> m_imports m = []"
  by (auto simp: New_def Let_def split: sum.splits option.splits if_splits)

text \<open>
  What an invocation adds to the import set: the paths recorded for the packages it
  meets, and nothing else.
\<close>

lemma recorded_append: "recorded self (a @ b) = recorded self a @ recorded self b"
  by (simp add: recorded_def)

lemma recorded_Nil: "recorded self [] = []"
  by (simp add: recorded_def)

lemma kept_pkgPath: "kept m m' \<Longrightarrow> m_pkgPath m' = m_pkgPath m"
  by (simp add: kept_def)

lemma packageQualifier_imports:
  "set (m_imports (snd (packageQualifier pkg m)))
     = set (m_imports m) \<union> set (recorded (m_pkgPath m) [pkg])"
  by (auto simp: packageQualifier_def recorded_def Let_def)

lemma TypeString_imports:
  "set (m_imports (snd (TypeString t m)))
     = set (m_imports m) \<union> set (recorded (m_pkgPath m) (packages_of t))"
proof (induction t arbitrary: m)
  case (Basic name)
  show ?case by (simp add: recorded_Nil)
next
  case (Named p name)
  show ?case
  proof (cases p)
    case None
    then show ?thesis by (simp add: recorded_Nil)
  next
    case (Some pkg)
    obtain q m1 where q: "packageQualifier pkg m = (q, m1)" by (cases "packageQualifier pkg m")
    from packageQualifier_imports[of pkg m] q Some show ?thesis by simp
  qed
next
  case (Pointer t)
  obtain s m1 where t: "TypeString t m = (s, m1)" by (cases "TypeString t m")
  from Pointer.IH[of m] t show ?case by simp
next
  case (Slice t)
  obtain s m1 where t: "TypeString t m = (s, m1)" by (cases "TypeString t m")
  from Slice.IH[of m] t show ?case by simp
next
  case (Array n t)
  obtain s m1 where t: "TypeString t m = (s, m1)" by (cases "TypeString t m")
  from Array.IH[of m] t show ?case by simp
next
  case (Map k v)
  obtain ks m1 where k: "TypeString k m = (ks, m1)" by (cases "TypeString k m")
  obtain vs m2 where v: "TypeString v m1 = (vs, m2)" by (cases "TypeString v m1")
  from TypeString_kept[of m k] k have p: "m_pkgPath m1 = m_pkgPath m" by (simp add: kept_def)
  from Map.IH(1)[of m] k have a: "set (m_imports m1)
     = set (m_imports m) \<union> set (recorded (m_pkgPath m) (packages_of k))" by simp
  from Map.IH(2)[of m1] v p have b: "set (m_imports m2)
     = set (m_imports m1) \<union> set (recorded (m_pkgPath m) (packages_of v))" by simp
  from a b k v show ?case by (simp add: recorded_append Un_assoc)
next
  case (Chan d t)
  obtain s m1 where t: "TypeString t m = (s, m1)" by (cases "TypeString t m")
  from Chan.IH[of m] t have "set (m_imports m1)
     = set (m_imports m) \<union> set (recorded (m_pkgPath m) (packages_of t))" by simp
  with t show ?case by (simp split: chandir.splits gotype.splits)
qed

lemma extractArgs_loop_imports:
  "extractArgs_loop sig listLen nameFormat ii list m = (Inr ps, m') \<Longrightarrow>
     set (m_imports m') = set (m_imports m) \<union> set (recorded (m_pkgPath m) (var_packages list))"
proof (induction list arbitrary: ii m ps)
  case Nil
  then show ?case by (simp add: var_packages_def recorded_Nil)
next
  case (Cons p rest)
  obtain typename m1 where ts: "TypeString (VarType p) m = (typename, m1)"
    by (cases "TypeString (VarType p) m")
  from Cons.prems ts obtain ps' where
    rec: "extractArgs_loop sig listLen nameFormat (ii + 1) rest m1 = (Inr ps', m')"
    by (auto simp: Let_def split: if_splits prod.splits sum.splits)
  from TypeString_kept[of m "VarType p"] ts have p: "m_pkgPath m1 = m_pkgPath m"
    by (simp add: kept_def)
  from TypeString_imports[of "VarType p" m] ts have a: "set (m_imports m1)
     = set (m_imports m) \<union> set (recorded (m_pkgPath m) (packages_of (VarType p)))" by simp
  from Cons.IH[OF rec] p have b: "set (m_imports m')
     = set (m_imports m1) \<union> set (recorded (m_pkgPath m) (var_packages rest))" by simp
  from a b show ?case by (simp add: var_packages_def recorded_append Un_assoc)
qed

lemma extractArgs_imports:
  "extractArgs m sig list nameFormat = (Inr ps, m') \<Longrightarrow>
     set (m_imports m') = set (m_imports m) \<union> set (recorded (m_pkgPath m) (var_packages list))"
  unfolding extractArgs_def by (rule extractArgs_loop_imports)

lemma mock_methods_imports:
  "mock_methods meths m = (Inr methods, m') \<Longrightarrow>
     set (m_imports m')
       = set (m_imports m) \<union> set (recorded (m_pkgPath m) (concat (map func_packages meths)))"
proof (induction meths arbitrary: m methods)
  case Nil
  then show ?case by (simp add: recorded_Nil)
next
  case (Cons meth meths)
  from Cons.prems obtain params m1 returns m2 methods' where
    a: "extractArgs m (FuncSig meth) (Params_sig (FuncSig meth)) ''in%d'' = (Inr params, m1)" and
    b: "extractArgs m1 (FuncSig meth) (Results_sig (FuncSig meth)) ''out%d''
          = (Inr returns, m2)" and
    c: "mock_methods meths m2 = (Inr methods', m')"
    by (auto simp: Let_def split: prod.splits sum.splits)
  from extractArgs_kept[of m "FuncSig meth" "Params_sig (FuncSig meth)" "''in%d''"] a
  have p1: "m_pkgPath m1 = m_pkgPath m" by (simp add: kept_def)
  from extractArgs_kept[of m1 "FuncSig meth" "Results_sig (FuncSig meth)" "''out%d''"] b
  have p2: "m_pkgPath m2 = m_pkgPath m1" by (simp add: kept_def)
  from extractArgs_imports[OF a] extractArgs_imports[OF b] Cons.IH[OF c] p1 p2
  show ?case by (simp add: func_packages_def recorded_append Un_assoc)
qed

lemma mock_names_imports:
  "mock_names lookup name objects mocksMethods m = (Inr (objects', mocksMethods'), m') \<Longrightarrow>
     set (m_imports m')
       = set (m_imports m) \<union> set (recorded (m_pkgPath m) (referenced lookup name))"
proof (induction name arbitrary: objects mocksMethods m)
  case Nil
  then show ?case by (simp add: referenced_def recorded_Nil)
next
  case (Cons n name)
  from Cons.prems obtain meths methods m1 where
    l: "lookup n = Some (InterfaceObject meths)" and
    a: "mock_methods meths m = (Inr methods, m1)" and
    rec: "mock_names lookup name (objects @ [\<lparr>InterfaceName = n, Methods = methods\<rparr>])
            (if meths = [] then mocksMethods else True) m1 = (Inr (objects', mocksMethods'), m')"
    by (auto split: option.splits object.splits prod.splits sum.splits)
  from mock_methods_kept[of m meths] a have p: "m_pkgPath m1 = m_pkgPath m"
    by (simp add: kept_def)
  have r: "referenced lookup (n # name)
             = concat (map func_packages meths) @ referenced lookup name"
    using l by (simp add: referenced_def)
  from mock_methods_imports[OF a] Cons.IH[OF rec] p r
  show ?case by (simp add: recorded_append Un_assoc)
qed

lemma mockDoc_imports:
  "mockDoc env order pkgInfo name m = (Inr d, m') \<Longrightarrow>
     set (m_imports m')
       = set (m_imports m) \<union> set (recorded (m_pkgPath m) (referenced (Lookup pkgInfo) name))"
  by (auto simp: mockDoc_def split: prod.splits sum.splits dest: mock_names_imports)

text \<open>
  The import list of a document: the baseline, \<^verbatim>\<open>sync\<close> when an object has a
  method, and the stripped form of every path that the import set holds once the names
  have been processed, in the order of the loop over the map.
\<close>

lemma mockDoc_Imports_list:
  assumes "mockDoc env order pkgInfo name m = (Inr d, m')"
  shows "Imports d =
           moqImports env
           @ (if \<exists>ob \<in> set (Objects d). Methods ob \<noteq> [] then [''sync''] else [])
           @ map stripVendorPath (range_keys order (m_imports m'))"
proof -
  from assms obtain objects mocksMethods where
    run: "mock_names (Lookup pkgInfo) name [] False m = (Inr (objects, mocksMethods), m')" and
    d: "d = \<lparr>PackageName = m_pkgName m, Objects = objects,
             Imports = moqImports env @ (if mocksMethods then [''sync''] else [])
                       @ map stripVendorPath (range_keys order (m_imports m'))\<rparr>"
    by (auto simp: mockDoc_def split: prod.splits sum.splits)
  from mock_names_flag[OF run] have
    "mocksMethods \<longleftrightarrow> (\<exists>ob \<in> set objects. Methods ob \<noteq> [])"
    by auto
  with d show ?thesis by simp
qed

text \<open>
  Once \<open>Mock\<close> has come to build the document, the Mocker it leaves behind is the one
  the construction of the document has produced, whatever follows.
\<close>

lemma Mock_mocker:
  assumes "name \<noteq> []" and "fst (removeOldMocks env (m_src m) fs) = None"
      and "pkgInfoFromPath env (m_src m) = Inr pkgInfo"
  shows "fst (snd (Mock env order Write w name m fs)) = snd (mockDoc env order pkgInfo name m)"
proof -
  obtain fs1 where r: "removeOldMocks env (m_src m) fs = (None, fs1)"
    using assms(2) by (cases "removeOldMocks env (m_src m) fs") simp
  obtain x m1 where d: "mockDoc env order pkgInfo name m = (x, m1)"
    by (cases "mockDoc env order pkgInfo name m")
  from assms(1,3) r d show ?thesis
    by (auto simp: Mock_def split: sum.splits prod.splits option.splits)
qed

text \<open>
  Claim C6, as the code has it. The import set belongs to the Mocker and not to one
  invocation. \<open>New\<close> creates it empty. Building the document only adds paths to it and
  removes none, whether it succeeds or fails; when it succeeds, the set holds the paths
  it held before and those recorded for the packages that this invocation has met. The
  document's import list is the baseline, \<^verbatim>\<open>sync\<close> when there is a method, and the
  stripped form (\<open>stripVendorPath\<close>) of every path that the set then holds: of those
  this invocation has recorded and of those that earlier invocations on the same Mocker
  had left. The Mocker that \<open>Mock\<close> leaves behind is the one with that set, and nothing
  empties it.
\<close>

theorem C6_import_set_lifetime:
  "(New env order0 src pn = Inr m0 \<longrightarrow> m_imports m0 = []) \<and>
   (mockDoc env order pkgInfo name m = (r, m') \<longrightarrow> set (m_imports m) \<subseteq> set (m_imports m')) \<and>
   (mockDoc env order pkgInfo name m = (Inr d, m') \<longrightarrow>
      set (m_imports m')
        = set (m_imports m) \<union> set (recorded (m_pkgPath m) (referenced (Lookup pkgInfo) name)) \<and>
      Imports d =
        moqImports env
        @ (if \<exists>ob \<in> set (Objects d). Methods ob \<noteq> [] then [''sync''] else [])
        @ map stripVendorPath (range_keys order (m_imports m')) \<and>
      stripVendorPath ` set (m_imports m') \<subseteq> set (Imports d) \<and>
      stripVendorPath ` set (m_imports m) \<subseteq> set (Imports d)) \<and>
   (name \<noteq> [] \<and> fst (removeOldMocks env (m_src m) fs) = None \<and>
    pkgInfoFromPath env (m_src m) = Inr pkgInfo \<longrightarrow>
      fst (snd (Mock env order Write w name m fs)) = snd (mockDoc env order pkgInfo name m)) \<and>
   (Mock env order Write w name m fs = (e, m'', fs', w') \<longrightarrow>
      set (m_imports m) \<subseteq> set (m_imports m''))"
proof (intro conjI impI)
  assume "New env order0 src pn = Inr m0"
  then show "m_imports m0 = []" by (rule New_imports)
next
  assume a: "mockDoc env order pkgInfo name m = (r, m')"
  with mockDoc_kept[of m env order pkgInfo name] show "set (m_imports m) \<subseteq> set (m_imports m')"
    by (simp add: kept_def)
next
  assume a: "mockDoc env order pkgInfo name m = (Inr d, m')"
  then show "set (m_imports m')
        = set (m_imports m) \<union> set (recorded (m_pkgPath m) (referenced (Lookup pkgInfo) name))"
    by (rule mockDoc_imports)
next
  assume a: "mockDoc env order pkgInfo name m = (Inr d, m')"
  then show "Imports d =
        moqImports env
        @ (if \<exists>ob \<in> set (Objects d). Methods ob \<noteq> [] then [''sync''] else [])
        @ map stripVendorPath (range_keys order (m_imports m'))"
    by (rule mockDoc_Imports_list)
next
  assume a: "mockDoc env order pkgInfo name m = (Inr d, m')"
  from mockDoc_Imports_list[OF a]
  show "stripVendorPath ` set (m_imports m') \<subseteq> set (Imports d)"
    by (auto simp: set_range_keys)
next
  assume a: "mockDoc env order pkgInfo name m = (Inr d, m')"
  with mockDoc_kept[of m env order pkgInfo name] have k: "set (m_imports m) \<subseteq> set (m_imports m')"
    by (simp add: kept_def)
  from mockDoc_Imports_list[OF a]
  have "stripVendorPath ` set (m_imports m') \<subseteq> set (Imports d)"
    by (auto simp: set_range_keys)
  with k show "stripVendorPath ` set (m_imports m) \<subseteq> set (Imports d)" by blast
next
  assume "name \<noteq> [] \<and> fst (removeOldMocks env (m_src m) fs) = None \<and>
          pkgInfoFromPath env (m_src m) = Inr pkgInfo"
  then show "fst (snd (Mock env order Write w name m fs))
               = snd (mockDoc env order pkgInfo name m)"
    by (intro Mock_mocker) simp_all
next
  assume a: "Mock env order Write w name m fs = (e, m'', fs', w')"
  with Mock_kept[of m env order Write w name fs] show "set (m_imports m) \<subseteq> set (m_imports m'')"
    by (simp add: kept_def)
qed

text \<open>
  The theorem on the Mocker that an invocation for \<^verbatim>\<open>Store\<close> has left behind, now
  asked for \<^verbatim>\<open>Locker\<close>: the set grows from \<^verbatim>\<open>context\<close> by \<^verbatim>\<open>sync\<close>, and
  the document's import list is \<^verbatim>\<open>sync\<close> for the method followed by both paths.
\<close>

theorem C6_import_set_lifetime_witness:
  "m_imports example_mocker = [] \<and>
   set (m_imports store_mocker)
     \<subseteq> set (m_imports (snd (mockDoc example_env [] example_info [''Locker''] store_mocker))) \<and>
   (set (m_imports (snd (mockDoc example_env [] example_info [''Locker''] store_mocker)))
      = set (m_imports store_mocker)
        \<union> set (recorded (m_pkgPath store_mocker) (referenced (Lookup example_info) [''Locker''])) \<and>
    Imports (projr (fst (mockDoc example_env [] example_info [''Locker''] store_mocker))) =
      moqImports example_env
      @ (if \<exists>ob \<in> set (Objects (projr (fst (mockDoc example_env [] example_info [''Locker'']
                                              store_mocker)))).
              Methods ob \<noteq> []
         then [''sync''] else [])
      @ map stripVendorPath
          (range_keys []
             (m_imports (snd (mockDoc example_env [] example_info [''Locker''] store_mocker)))) \<and>
    stripVendorPath
        ` set (m_imports (snd (mockDoc example_env [] example_info [''Locker''] store_mocker)))
      \<subseteq> set (Imports (projr (fst (mockDoc example_env [] example_info [''Locker'']
                                       store_mocker)))) \<and>
    stripVendorPath ` set (m_imports store_mocker)
      \<subseteq> set (Imports (projr (fst (mockDoc example_env [] example_info [''Locker'']
                                       store_mocker))))) \<and>
   fst (snd (Mock example_env [] buffer_Write [] [''Locker''] store_mocker example_fs))
     = snd (mockDoc example_env [] example_info [''Locker''] store_mocker) \<and>
   set (m_imports store_mocker)
     \<subseteq> set (m_imports (fst (snd (Mock example_env [] buffer_Write [] [''Locker''] store_mocker
                                       example_fs)))) \<and>
   Imports (projr (fst (mockDoc example_env [] example_info [''Locker''] store_mocker)))
     = [''sync'', ''sync'', ''context'']"
proof -
  let ?d = "mockDoc example_env [] example_info [''Locker''] store_mocker"
  let ?k = "Mock example_env [] buffer_Write [] [''Locker''] store_mocker example_fs"
  have n: "New example_env [] ''.'' [] = Inr example_mocker"
    by code_simp
  have d: "?d = (Inr (projr (fst ?d)), snd ?d)"
    by code_simp
  have k: "?k = (fst ?k, fst (snd ?k), fst (snd (snd ?k)), snd (snd (snd ?k)))"
    by simp
  have src: "m_src store_mocker = ''.''"
    by code_simp
  have full: "pkgPath example_env ''.'' = Inr ''example.com/p''"
    by code_simp
  have rm: "fst (removeOldMocks example_env (m_src store_mocker) example_fs) = None"
    by code_simp
  from src full have "pkgInfoFromPath example_env (m_src store_mocker) = Inr example_info"
    by (simp add: pkgInfoFromPath_def example_env_def)
  with rm have p: "[''Locker''] \<noteq> [] \<and>
           fst (removeOldMocks example_env (m_src store_mocker) example_fs) = None \<and>
           pkgInfoFromPath example_env (m_src store_mocker) = Inr example_info"
    by simp
  have v: "Imports (projr (fst ?d)) = [''sync'', ''sync'', ''context'']"
    by code_simp
  note c = C6_import_set_lifetime[where env = example_env and order0 = "[]" and src = "''.''"
      and pn = "[]" and ?m0.0 = example_mocker and order = "[]" and pkgInfo = example_info
      and name = "[''Locker'']" and m = store_mocker and r = "Inr (projr (fst ?d))"
      and m' = "snd ?d" and d = "projr (fst ?d)" and Write = buffer_Write and w = "[]"
      and fs = example_fs and e = "fst ?k" and m'' = "fst (snd ?k)"
      and fs' = "fst (snd (snd ?k))" and w' = "snd (snd (snd ?k))"]
  from c n d k p v show ?thesis by blast
qed

text \<open>
  Against the claim as stated: after an invocation for \<^verbatim>\<open>Store\<close> the Mocker holds
  the path \<^verbatim>\<open>context\<close>, and a second invocation on it, for the interface
  \<^verbatim>\<open>Empty\<close> that mentions no type at all, does not start from an empty import set and
  puts \<^verbatim>\<open>context\<close> into its document.
\<close>

theorem C6_second_invocation_counterexample:
  "fst (snd (Mock example_env [] buffer_Write [] [''Store''] example_mocker example_fs))
     = store_mocker \<and>
   m_imports store_mocker = [''context''] \<and>
   fst (mockDoc example_env [] example_info [''Empty''] store_mocker)
     = Inr \<lparr>PackageName = ''p'',
            Objects = [\<lparr>InterfaceName = ''Empty'', Methods = []\<rparr>],
            Imports = [''context'']\<rparr>"
  by code_simp

section \<open>The mutual-exclusion import\<close>

text \<open>
  The import list of a document, as a set: the baseline, \<^verbatim>\<open>sync\<close> when an object
  has a method, and the stripped form of every path in the Mocker's import set.
\<close>

lemma mockDoc_Imports:
  assumes "mockDoc env order pkgInfo name m = (Inr d, m')"
  shows "set (Imports d) =
           set (moqImports env)
           \<union> (if \<exists>ob \<in> set (Objects d). Methods ob \<noteq> [] then {''sync''} else {})
           \<union> stripVendorPath ` set (m_imports m')"
proof -
  from assms obtain objects mocksMethods where
    run: "mock_names (Lookup pkgInfo) name [] False m = (Inr (objects, mocksMethods), m')" and
    d: "d = \<lparr>PackageName = m_pkgName m, Objects = objects,
             Imports = moqImports env @ (if mocksMethods then [''sync''] else [])
                       @ map stripVendorPath (range_keys order (m_imports m'))\<rparr>"
    by (auto simp: mockDoc_def split: prod.splits sum.splits)
  from mock_names_flag[OF run] have
    "mocksMethods \<longleftrightarrow> (\<exists>ob \<in> set objects. Methods ob \<noteq> [])"
    by auto
  with d show ?thesis by (auto simp: set_range_keys)
qed

text \<open>
  Claim C7, as the code has it. For an invocation on a Mocker whose import set holds no
  path that is stripped to \<^verbatim>\<open>sync\<close> (an empty set, as \<open>New\<close> returns it, is one),
  and a baseline import list that does not name \<^verbatim>\<open>sync\<close> itself, the document's
  import list contains \<^verbatim>\<open>sync\<close> if and only if one of the document's objects has a
  method.
\<close>

theorem C7_sync_import:
  assumes "\<forall>p \<in> set (m_imports m). stripVendorPath p \<noteq> ''sync''"
      and "''sync'' \<notin> set (moqImports env)"
      and "mockDoc env order pkgInfo name m = (Inr d, m')"
  shows "''sync'' \<in> set (Imports d) \<longleftrightarrow> (\<exists>ob \<in> set (Objects d). Methods ob \<noteq> [])"
proof -
  from assms(3) obtain objects mocksMethods where
    run: "mock_names (Lookup pkgInfo) name [] False m = (Inr (objects, mocksMethods), m')" and
    d: "d = \<lparr>PackageName = m_pkgName m, Objects = objects,
             Imports = moqImports env @ (if mocksMethods then [''sync''] else [])
                       @ map stripVendorPath (range_keys order (m_imports m'))\<rparr>"
    by (auto simp: mockDoc_def split: prod.splits sum.splits)
  from mock_names_flag[OF run] have
    f: "mocksMethods \<longleftrightarrow> (\<exists>ob \<in> set objects. Methods ob \<noteq> [])" and
    s: "\<not> mocksMethods \<longrightarrow> m' = m"
    by auto
  show ?thesis
  proof (cases mocksMethods)
    case True
    with f d show ?thesis by simp
  next
    case False
    with s have "m' = m" by simp
    with False f d assms(1,2) show ?thesis by (auto simp: set_range_keys)
  qed
qed

text \<open>
  The theorem on the Mocker that \<open>New\<close> returns, for \<^verbatim>\<open>Store\<close> together with
  \<^verbatim>\<open>Empty\<close> (the import is there) and for \<^verbatim>\<open>Empty\<close> alone (it is not).
\<close>

theorem C7_sync_import_witness:
  "((''sync'' \<in> set (Imports (projr (fst (mockDoc example_env [] example_info
                                           [''Store'', ''Empty''] example_mocker)))))
      \<longleftrightarrow> (\<exists>ob \<in> set (Objects (projr (fst (mockDoc example_env [] example_info
                                               [''Store'', ''Empty''] example_mocker)))).
             Methods ob \<noteq> [])) \<and>
   ''sync'' \<in> set (Imports (projr (fst (mockDoc example_env [] example_info
                                         [''Store'', ''Empty''] example_mocker)))) \<and>
   ((''sync'' \<in> set (Imports (projr (fst (mockDoc example_env [] example_info
                                           [''Empty''] example_mocker)))))
      \<longleftrightarrow> (\<exists>ob \<in> set (Objects (projr (fst (mockDoc example_env [] example_info
                                               [''Empty''] example_mocker)))).
             Methods ob \<noteq> [])) \<and>
   ''sync'' \<notin> set (Imports (projr (fst (mockDoc example_env [] example_info
                                         [''Empty''] example_mocker))))"
proof -
  let ?a = "mockDoc example_env [] example_info [''Store'', ''Empty''] example_mocker"
  let ?b = "mockDoc example_env [] example_info [''Empty''] example_mocker"
  have fresh: "\<forall>p \<in> set (m_imports example_mocker). stripVendorPath p \<noteq> ''sync''"
    by (simp add: example_mocker_def)
  have base: "''sync'' \<notin> set (moqImports example_env)"
    by (simp add: example_env_def)
  have a: "?a = (Inr (projr (fst ?a)), snd ?a)"
    by code_simp
  have b: "?b = (Inr (projr (fst ?b)), snd ?b)"
    by code_simp
  note ca = C7_sync_import[OF fresh base a]
  note cb = C7_sync_import[OF fresh base b]
  have va: "''sync'' \<in> set (Imports (projr (fst ?a)))"
    by code_simp
  have vb: "''sync'' \<notin> set (Imports (projr (fst ?b)))"
    by code_simp
  from ca va cb vb show ?thesis by (intro conjI)
qed

text \<open>
  Against the claim as stated: on the Mocker that an invocation for \<^verbatim>\<open>Locker\<close>
  (whose method takes a \<^verbatim>\<open>*sync.Mutex\<close>) has left behind, an invocation for
  \<^verbatim>\<open>Empty\<close> alone yields a document whose only object has no method and whose import
  list contains \<^verbatim>\<open>sync\<close>.
\<close>

theorem C7_stale_sync_counterexample:
  "fst (mockDoc example_env [] example_info [''Empty'']
         (fst (snd (Mock example_env [] buffer_Write [] [''Locker''] example_mocker example_fs))))
     = Inr \<lparr>PackageName = ''p'',
            Objects = [\<lparr>InterfaceName = ''Empty'', Methods = []\<rparr>],
            Imports = [''sync'']\<rparr>"
  by code_simp

section \<open>The package qualifier\<close>

lemma packageQualifier_self:
  "Join [Dir (Path pkg), PkgName pkg] = m_pkgPath m \<Longrightarrow> packageQualifier pkg m = ([], m)"
  by (simp add: packageQualifier_def)

lemma TypeString_self:
  "\<forall>p \<in> set (packages_of t). Join [Dir (Path p), PkgName p] = m_pkgPath m \<Longrightarrow>
     snd (TypeString t m) = m"
proof (induction t arbitrary: m)
  case (Basic name)
  show ?case by simp
next
  case (Named p name)
  then show ?case by (cases p) (simp_all add: packageQualifier_self)
next
  case (Pointer t)
  obtain s m1 where t: "TypeString t m = (s, m1)" by (cases "TypeString t m")
  from Pointer.IH[of m] Pointer.prems t show ?case by simp
next
  case (Slice t)
  obtain s m1 where t: "TypeString t m = (s, m1)" by (cases "TypeString t m")
  from Slice.IH[of m] Slice.prems t show ?case by simp
next
  case (Array n t)
  obtain s m1 where t: "TypeString t m = (s, m1)" by (cases "TypeString t m")
  from Array.IH[of m] Array.prems t show ?case by simp
next
  case (Map k v)
  obtain ks m1 where k: "TypeString k m = (ks, m1)" by (cases "TypeString k m")
  obtain vs m2 where v: "TypeString v m1 = (vs, m2)" by (cases "TypeString v m1")
  from Map.IH(1)[of m] Map.prems k have m1: "m1 = m" by simp
  from Map.IH(2)[of m] Map.prems v m1 have "m2 = m" by simp
  with k v m1 show ?case by simp
next
  case (Chan d t)
  obtain s m1 where t: "TypeString t m = (s, m1)" by (cases "TypeString t m")
  from Chan.IH[of m] Chan.prems t have "m1 = m" by simp
  with t show ?case by (simp split: chandir.splits gotype.splits)
qed

text \<open>
  The type string that \<open>TypeString\<close> gives depends on the Mocker by its identity alone,
  and with the identity of the package \<open>own\<close> it is the string of the type in which
  the names of \<open>own\<close> stand bare.
\<close>

lemma packageQualifier_fst:
  "fst (packageQualifier pkg m)
     = (if Join [Dir (Path pkg), PkgName pkg] = m_pkgPath m then [] else PkgName pkg)"
  by (simp add: packageQualifier_def Let_def)

lemma TypeString_fst:
  "m_pkgPath m1 = m_pkgPath m2 \<Longrightarrow> fst (TypeString t m1) = fst (TypeString t m2)"
proof (induction t arbitrary: m1 m2)
  case (Basic name)
  show ?case by simp
next
  case (Named p name)
  show ?case
  proof (cases p)
    case None
    then show ?thesis by simp
  next
    case (Some pkg)
    obtain q1 n1 where a: "packageQualifier pkg m1 = (q1, n1)"
      by (cases "packageQualifier pkg m1")
    obtain q2 n2 where b: "packageQualifier pkg m2 = (q2, n2)"
      by (cases "packageQualifier pkg m2")
    from packageQualifier_fst[of pkg m1] packageQualifier_fst[of pkg m2] Named.prems a b
    have "q1 = q2" by simp
    with Some a b show ?thesis by simp
  qed
next
  case (Pointer t)
  from Pointer.IH[OF Pointer.prems] show ?case
    by (cases "TypeString t m1"; cases "TypeString t m2") simp
next
  case (Slice t)
  from Slice.IH[OF Slice.prems] show ?case
    by (cases "TypeString t m1"; cases "TypeString t m2") simp
next
  case (Array n t)
  from Array.IH[OF Array.prems] show ?case
    by (cases "TypeString t m1"; cases "TypeString t m2") simp
next
  case (Map k v)
  obtain ks1 n1 where k1: "TypeString k m1 = (ks1, n1)" by (cases "TypeString k m1")
  obtain ks2 n2 where k2: "TypeString k m2 = (ks2, n2)" by (cases "TypeString k m2")
  obtain vs1 o1 where v1: "TypeString v n1 = (vs1, o1)" by (cases "TypeString v n1")
  obtain vs2 o2 where v2: "TypeString v n2 = (vs2, o2)" by (cases "TypeString v n2")
  from Map.IH(1)[OF Map.prems] k1 k2 have ks: "ks1 = ks2" by simp
  from TypeString_kept[of m1 k] k1 have "m_pkgPath n1 = m_pkgPath m1" by (simp add: kept_def)
  moreover from TypeString_kept[of m2 k] k2 have "m_pkgPath n2 = m_pkgPath m2"
    by (simp add: kept_def)
  ultimately have "m_pkgPath n1 = m_pkgPath n2" using Map.prems by simp
  from Map.IH(2)[OF this] v1 v2 have "vs1 = vs2" by simp
  with ks k1 k2 v1 v2 show ?case by simp
next
  case (Chan d t)
  obtain s1 n1 where t1: "TypeString t m1 = (s1, n1)" by (cases "TypeString t m1")
  obtain s2 n2 where t2: "TypeString t m2 = (s2, n2)" by (cases "TypeString t m2")
  from Chan.IH[OF Chan.prems] t1 t2 have "s1 = s2" by simp
  with t1 t2 show ?case by (simp split: chandir.splits gotype.splits)
qed

lemma TypeString_drop_pkg:
  "Join [Dir (Path own), PkgName own] = m_pkgPath m \<Longrightarrow>
     fst (TypeString (drop_pkg own t) m) = fst (TypeString t m)"
proof (induction t arbitrary: m)
  case (Basic name)
  show ?case by simp
next
  case (Named p name)
  show ?case
  proof (cases p)
    case None
    then show ?thesis by simp
  next
    case (Some pkg)
    with Named.prems show ?thesis by (simp add: packageQualifier_self)
  qed
next
  case (Pointer t)
  from Pointer.IH[OF Pointer.prems] show ?case
    by (cases "TypeString (drop_pkg own t) m"; cases "TypeString t m") simp
next
  case (Slice t)
  from Slice.IH[OF Slice.prems] show ?case
    by (cases "TypeString (drop_pkg own t) m"; cases "TypeString t m") simp
next
  case (Array n t)
  from Array.IH[OF Array.prems] show ?case
    by (cases "TypeString (drop_pkg own t) m"; cases "TypeString t m") simp
next
  case (Map k v)
  obtain ks1 n1 where k1: "TypeString (drop_pkg own k) m = (ks1, n1)"
    by (cases "TypeString (drop_pkg own k) m")
  obtain ks2 n2 where k2: "TypeString k m = (ks2, n2)" by (cases "TypeString k m")
  obtain vs1 o1 where v1: "TypeString (drop_pkg own v) n1 = (vs1, o1)"
    by (cases "TypeString (drop_pkg own v) n1")
  obtain vs2 o2 where v2: "TypeString v n2 = (vs2, o2)" by (cases "TypeString v n2")
  from Map.IH(1)[OF Map.prems] k1 k2 have ks: "ks1 = ks2" by simp
  from TypeString_kept[of m "drop_pkg own k"] k1 have p1: "m_pkgPath n1 = m_pkgPath m"
    by (simp add: kept_def)
  from TypeString_kept[of m k] k2 have p2: "m_pkgPath n2 = m_pkgPath m"
    by (simp add: kept_def)
  from Map.prems p1 have "Join [Dir (Path own), PkgName own] = m_pkgPath n1" by simp
  from Map.IH(2)[OF this] have "fst (TypeString (drop_pkg own v) n1) = fst (TypeString v n1)" .
  also from p1 p2 have "\<dots> = fst (TypeString v n2)" by (intro TypeString_fst) simp
  finally have "vs1 = vs2" using v1 v2 by simp
  with ks k1 k2 v1 v2 show ?case by simp
next
  case (Chan d t)
  obtain s1 n1 where t1: "TypeString (drop_pkg own t) m = (s1, n1)"
    by (cases "TypeString (drop_pkg own t) m")
  obtain s2 n2 where t2: "TypeString t m = (s2, n2)" by (cases "TypeString t m")
  from Chan.IH[OF Chan.prems] t1 t2 have s: "s1 = s2" by simp
  show ?case
  proof (cases t)
    case (Named p name)
    with s t1 t2 show ?thesis by (cases p) (auto split: chandir.splits if_splits)
  qed (use s t1 t2 in \<open>auto split: chandir.splits\<close>)
qed

lemma TypeString_own_named:
  "Join [Dir (Path own), PkgName own] = m_pkgPath m \<Longrightarrow>
     TypeString (Named (Some own) name) m = (name, m)"
  by (simp add: packageQualifier_self)

text \<open>
  Every type string of the document is the one \<open>TypeString\<close> gives for the type of the
  parameter or result at its position, with the identity of the Mocker that the invocation
  began with.
\<close>

lemma extractArgs_loop_types:
  "extractArgs_loop sig listLen nameFormat ii list m = (Inr ps, m') \<Longrightarrow> k < length list \<Longrightarrow>
     Type (ps ! k) = fst (TypeString (VarType (list ! k)) m)"
proof (induction list arbitrary: ii m ps k)
  case Nil
  then show ?case by simp
next
  case (Cons p rest)
  obtain typename m1 where ts: "TypeString (VarType p) m = (typename, m1)"
    by (cases "TypeString (VarType p) m")
  from Cons.prems(1) ts obtain ps' where
    rec: "extractArgs_loop sig listLen nameFormat (ii + 1) rest m1 = (Inr ps', m')" and
    ps: "ps = \<lparr>Name = (if VarName p = [] then Sprintf nameFormat (ii + 1) else VarName p),
                Type = typename,
                Variadic = (Variadic_sig sig \<and> ii = listLen - 1 \<and> take 2 typename = ''[]'')\<rparr>
              # ps'"
    by (auto simp: Let_def split: if_splits prod.splits sum.splits)
  show ?case
  proof (cases k)
    case 0
    with ps ts show ?thesis by simp
  next
    case (Suc k')
    with Cons.prems(2) have "k' < length rest" by simp
    from Cons.IH[OF rec this]
    have "Type (ps' ! k') = fst (TypeString (VarType (rest ! k')) m1)" .
    also from TypeString_kept[of m "VarType p"] ts
    have "\<dots> = fst (TypeString (VarType (rest ! k')) m)"
      by (intro TypeString_fst) (simp add: kept_def)
    finally show ?thesis using Suc ps by simp
  qed
qed

lemma mock_methods_nth_kept:
  "mock_methods meths m = (Inr methods, m') \<Longrightarrow> j < length meths \<Longrightarrow>
     \<exists>m1 m2 m3.
        kept m m1 \<and> kept m m2 \<and>
        extractArgs m1 (FuncSig (meths ! j)) (Params_sig (FuncSig (meths ! j))) ''in%d''
          = (Inr (Params (methods ! j)), m2) \<and>
        extractArgs m2 (FuncSig (meths ! j)) (Results_sig (FuncSig (meths ! j))) ''out%d''
          = (Inr (Returns (methods ! j)), m3)"
proof (induction meths arbitrary: m methods j)
  case Nil
  then show ?case by simp
next
  case (Cons meth meths)
  from Cons.prems(1) obtain params m1 returns m2 methods' where
    a: "extractArgs m (FuncSig meth) (Params_sig (FuncSig meth)) ''in%d'' = (Inr params, m1)" and
    b: "extractArgs m1 (FuncSig meth) (Results_sig (FuncSig meth)) ''out%d''
          = (Inr returns, m2)" and
    c: "mock_methods meths m2 = (Inr methods', m')" and
    d: "methods = \<lparr>MethodName = FuncName meth, Params = params, Returns = returns\<rparr>
                  # methods'"
    by (auto simp: Let_def split: prod.splits sum.splits)
  from extractArgs_kept[of m "FuncSig meth" "Params_sig (FuncSig meth)" "''in%d''"] a
  have k1: "kept m m1" by simp
  from extractArgs_kept[of m1 "FuncSig meth" "Results_sig (FuncSig meth)" "''out%d''"] b
  have "kept m1 m2" by simp
  with k1 have k2: "kept m m2" by (rule kept_trans)
  show ?case
  proof (cases j)
    case 0
    with a b d k1 kept_refl[of m] show ?thesis by auto
  next
    case (Suc j')
    with Cons.prems(2) have "j' < length meths" by simp
    from Cons.IH[OF c this] obtain n1 n2 n3 where
      "kept m2 n1" "kept m2 n2"
      "extractArgs n1 (FuncSig (meths ! j')) (Params_sig (FuncSig (meths ! j'))) ''in%d''
          = (Inr (Params (methods' ! j')), n2)"
      "extractArgs n2 (FuncSig (meths ! j')) (Results_sig (FuncSig (meths ! j'))) ''out%d''
          = (Inr (Returns (methods' ! j')), n3)"
      by blast
    with kept_trans[OF k2] Suc d show ?thesis by auto
  qed
qed

lemma mock_names_nth_kept:
  "mock_names lookup name objects mocksMethods m = (Inr (objects', mocksMethods'), m') \<Longrightarrow>
   i < length name \<Longrightarrow>
     \<exists>meths m1 m2.
        kept m m1 \<and>
        lookup (name ! i) = Some (InterfaceObject meths) \<and>
        mock_methods meths m1 = (Inr (Methods (objects' ! (length objects + i))), m2)"
proof (induction name arbitrary: objects mocksMethods m i)
  case Nil
  then show ?case by simp
next
  case (Cons n name)
  from Cons.prems(1) obtain meths methods m1 where
    l: "lookup n = Some (InterfaceObject meths)" and
    a: "mock_methods meths m = (Inr methods, m1)" and
    rec: "mock_names lookup name (objects @ [\<lparr>InterfaceName = n, Methods = methods\<rparr>])
            (if meths = [] then mocksMethods else True) m1 = (Inr (objects', mocksMethods'), m')"
    by (auto split: option.splits object.splits prod.splits sum.splits)
  from mock_methods_kept[of m meths] a have k1: "kept m m1" by simp
  from mock_names_flag[OF rec] obtain new where
    o: "objects' = (objects @ [\<lparr>InterfaceName = n, Methods = methods\<rparr>]) @ new"
    by blast
  show ?case
  proof (cases i)
    case 0
    from o have "objects' ! (length objects + 0) = \<lparr>InterfaceName = n, Methods = methods\<rparr>"
      by (simp add: nth_append)
    with 0 l a kept_refl[of m] show ?thesis by auto
  next
    case (Suc i')
    with Cons.prems(2) have "i' < length name" by simp
    from Cons.IH[OF rec this] obtain meths' n1 n2 where
      "kept m1 n1" "lookup (name ! i') = Some (InterfaceObject meths')"
      "mock_methods meths' n1
         = (Inr (Methods (objects' ! (length (objects @ [\<lparr>InterfaceName = n, Methods = methods\<rparr>]) + i'))), n2)"
      by blast
    with kept_trans[OF k1] Suc show ?thesis by auto
  qed
qed

lemma mockDoc_types:
  assumes "mockDoc env order pkgInfo name m = (Inr d, m')"
      and "i < length name"
      and "Lookup pkgInfo (name ! i) = Some (InterfaceObject meths)"
      and "j < length meths"
  shows "(\<forall>k < length (Params_sig (FuncSig (meths ! j))).
            Type (Params (Methods (Objects d ! i) ! j) ! k)
              = fst (TypeString (VarType (Params_sig (FuncSig (meths ! j)) ! k)) m)) \<and>
         (\<forall>k < length (Results_sig (FuncSig (meths ! j))).
            Type (Returns (Methods (Objects d ! i) ! j) ! k)
              = fst (TypeString (VarType (Results_sig (FuncSig (meths ! j)) ! k)) m))"
proof -
  from assms(1) obtain objects mocksMethods where
    run: "mock_names (Lookup pkgInfo) name [] False m = (Inr (objects, mocksMethods), m')" and
    d: "Objects d = objects"
    by (auto simp: mockDoc_def split: prod.splits sum.splits)
  from mock_names_nth_kept[OF run assms(2)] assms(3) d obtain m1 m2 where
    k1: "kept m m1" and
    ms: "mock_methods meths m1 = (Inr (Methods (Objects d ! i)), m2)"
    by auto
  from mock_methods_nth_kept[OF ms assms(4)] obtain m3 m4 m5 where
    k3: "kept m1 m3" and k4: "kept m1 m4" and
    a: "extractArgs m3 (FuncSig (meths ! j)) (Params_sig (FuncSig (meths ! j))) ''in%d''
          = (Inr (Params (Methods (Objects d ! i) ! j)), m4)" and
    b: "extractArgs m4 (FuncSig (meths ! j)) (Results_sig (FuncSig (meths ! j))) ''out%d''
          = (Inr (Returns (Methods (Objects d ! i) ! j)), m5)"
    by blast
  from kept_trans[OF k1 k3] have p3: "m_pkgPath m3 = m_pkgPath m" by (simp add: kept_def)
  from kept_trans[OF k1 k4] have p4: "m_pkgPath m4 = m_pkgPath m" by (simp add: kept_def)
  show ?thesis
  proof (intro conjI allI impI)
    fix k assume "k < length (Params_sig (FuncSig (meths ! j)))"
    from extractArgs_loop_types[OF a[unfolded extractArgs_def] this]
    have "Type (Params (Methods (Objects d ! i) ! j) ! k)
            = fst (TypeString (VarType (Params_sig (FuncSig (meths ! j)) ! k)) m3)" .
    also from p3 have "\<dots> = fst (TypeString (VarType (Params_sig (FuncSig (meths ! j)) ! k)) m)"
      by (rule TypeString_fst)
    finally show "Type (Params (Methods (Objects d ! i) ! j) ! k)
            = fst (TypeString (VarType (Params_sig (FuncSig (meths ! j)) ! k)) m)" .
  next
    fix k assume "k < length (Results_sig (FuncSig (meths ! j)))"
    from extractArgs_loop_types[OF b[unfolded extractArgs_def] this]
    have "Type (Returns (Methods (Objects d ! i) ! j) ! k)
            = fst (TypeString (VarType (Results_sig (FuncSig (meths ! j)) ! k)) m4)" .
    also from p4 have "\<dots> = fst (TypeString (VarType (Results_sig (FuncSig (meths ! j)) ! k)) m)"
      by (rule TypeString_fst)
    finally show "Type (Returns (Methods (Objects d ! i) ! j) ! k)
            = fst (TypeString (VarType (Results_sig (FuncSig (meths ! j)) ! k)) m)" .
  qed
qed

lemma New_pkgPath:
  "New env order src pn = Inr m \<Longrightarrow> pkgPath env src = Inr pkgFull \<Longrightarrow>
     m_pkgPath m = Join [Dir pkgFull, m_pkgName m]"
  by (auto simp: New_def Let_def split: sum.splits option.splits if_splits)

text \<open>
  The branch of \<open>packageQualifier\<close> for a package whose path is \<open>.\<close>: the Mocker's
  own identity is recorded in the place of the path. \<open>Mock\<close> asks the loader for the
  path that \<open>pkgPath\<close> makes of the directory, and a package that this one depends on
  is loaded under the path by which it is imported, so that \<open>Mock\<close> meets no package of
  the path \<open>.\<close>; the statements on foreign packages below are for paths other than
  \<open>.\<close>.
\<close>

lemma packageQualifier_dot:
  "Join [Dir (Path pkg), PkgName pkg] \<noteq> m_pkgPath m \<Longrightarrow> Path pkg = ''.'' \<Longrightarrow>
     packageQualifier pkg m
       = (PkgName pkg, m\<lparr>m_imports := List.insert (m_pkgPath m) (m_imports m)\<rparr>)"
  by (simp add: packageQualifier_def)

text \<open>
  With no package of the path \<open>.\<close>, and the package at \<open>pkgFull\<close> named
  \<open>pkgName\<close>, the path \<open>pkgFull\<close> is not among the paths recorded for the identity
  of the two; nor is it the stripped form of one, unless a package is a vendored copy
  whose path is stripped to \<open>pkgFull\<close>.
\<close>

lemma recorded_not_own:
  assumes "\<forall>p \<in> set pkgs. Path p \<noteq> ''.'' \<and> (Path p = pkgFull \<longrightarrow> PkgName p = pkgName)"
  shows "pkgFull \<notin> set (recorded (Join [Dir pkgFull, pkgName]) pkgs)"
proof
  assume "pkgFull \<in> set (recorded (Join [Dir pkgFull, pkgName]) pkgs)"
  then obtain p where p: "p \<in> set pkgs"
      and f: "Join [Dir (Path p), PkgName p] \<noteq> Join [Dir pkgFull, pkgName]"
      and e: "pkgFull = (if Path p = ''.'' then Join [Dir pkgFull, pkgName] else Path p)"
    by (auto simp: recorded_def)
  from assms p have "Path p \<noteq> ''.''" and n: "Path p = pkgFull \<longrightarrow> PkgName p = pkgName"
    by auto
  with e have "Path p = pkgFull" by simp
  with n f show False by simp
qed

lemma recorded_strip_not_own:
  assumes "\<forall>p \<in> set pkgs. Path p \<noteq> ''.'' \<and> (Path p = pkgFull \<longrightarrow> PkgName p = pkgName)"
      and "\<forall>p \<in> set pkgs. stripVendorPath (Path p) = pkgFull \<longrightarrow> Path p = pkgFull"
  shows "pkgFull \<notin> stripVendorPath ` set (recorded (Join [Dir pkgFull, pkgName]) pkgs)"
proof
  assume "pkgFull \<in> stripVendorPath ` set (recorded (Join [Dir pkgFull, pkgName]) pkgs)"
  then obtain p where p: "p \<in> set pkgs"
      and f: "Join [Dir (Path p), PkgName p] \<noteq> Join [Dir pkgFull, pkgName]"
      and e: "pkgFull = stripVendorPath (if Path p = ''.'' then Join [Dir pkgFull, pkgName]
                                         else Path p)"
    by (auto simp: recorded_def)
  from assms(1) p have "Path p \<noteq> ''.''" and n: "Path p = pkgFull \<longrightarrow> PkgName p = pkgName"
    by auto
  with e have "stripVendorPath (Path p) = pkgFull" by simp
  with assms(2) p have "Path p = pkgFull" by auto
  with n f show False by simp
qed

text \<open>
  Claim C3. For a package of the Mocker's own identity (the directory of its path joined
  with its name) the qualifier is empty and nothing is recorded: the Mocker is unchanged.
  For any other package the qualifier is the package's name and the package's path is
  put into the import set. Consequently, when the mock is generated into the package of
  the source interface (the Mocker is the one \<open>New\<close> makes for the directory, and a
  package met at the directory's import path \<open>pkgFull\<close> has the Mocker's package
  name), the import set of the invocation is exactly the paths recorded for the packages
  met and does not hold \<open>pkgFull\<close>; the document's import list is the baseline,
  \<^verbatim>\<open>sync\<close> when there is a method, and the stripped form of that set, so that
  \<open>pkgFull\<close> is not in the list, provided it is neither in the baseline nor
  \<^verbatim>\<open>sync\<close> itself and no package met is a vendored copy stripped to it; and every
  type string of the document is that of the type with the names of the package's own
  types bare, without a qualifier.
\<close>

theorem C3_packageQualifier:
  "(Join [Dir (Path pkg), PkgName pkg] = m_pkgPath m \<longrightarrow> packageQualifier pkg m = ([], m)) \<and>
   (Join [Dir (Path pkg), PkgName pkg] \<noteq> m_pkgPath m \<and> Path pkg \<noteq> ''.'' \<longrightarrow>
      packageQualifier pkg m
        = (PkgName pkg, m\<lparr>m_imports := List.insert (Path pkg) (m_imports m)\<rparr>) \<and>
      Path pkg \<in> set (m_imports (snd (packageQualifier pkg m)))) \<and>
   (New env order0 src pn = Inr m0 \<and> pkgPath env src = Inr pkgFull \<and>
    mockDoc env order pkgInfo name m0 = (Inr d, m') \<and>
    (\<forall>p \<in> set (referenced (Lookup pkgInfo) name).
       Path p \<noteq> ''.'' \<and> (Path p = pkgFull \<longrightarrow> PkgName p = m_pkgName m0)) \<longrightarrow>
      pkgFull \<notin> set (m_imports m') \<and>
      set (m_imports m') = set (recorded (m_pkgPath m0) (referenced (Lookup pkgInfo) name)) \<and>
      Imports d =
        moqImports env
        @ (if \<exists>ob \<in> set (Objects d). Methods ob \<noteq> [] then [''sync''] else [])
        @ map stripVendorPath (range_keys order (m_imports m')) \<and>
      (pkgFull \<notin> set (moqImports env) \<and> pkgFull \<noteq> ''sync'' \<and>
       (\<forall>p \<in> set (referenced (Lookup pkgInfo) name).
          stripVendorPath (Path p) = pkgFull \<longrightarrow> Path p = pkgFull) \<longrightarrow>
         pkgFull \<notin> set (Imports d)) \<and>
      (i < length name \<and> Lookup pkgInfo (name ! i) = Some (InterfaceObject meths) \<and>
       j < length meths \<longrightarrow>
         (\<forall>k < length (Params_sig (FuncSig (meths ! j))).
            Type (Params (Methods (Objects d ! i) ! j) ! k)
              = fst (TypeString
                       (drop_pkg (Package pkgFull (m_pkgName m0))
                          (VarType (Params_sig (FuncSig (meths ! j)) ! k))) m0)) \<and>
         (\<forall>k < length (Results_sig (FuncSig (meths ! j))).
            Type (Returns (Methods (Objects d ! i) ! j) ! k)
              = fst (TypeString
                       (drop_pkg (Package pkgFull (m_pkgName m0))
                          (VarType (Results_sig (FuncSig (meths ! j)) ! k))) m0))))"
proof (intro conjI)
  show "Join [Dir (Path pkg), PkgName pkg] = m_pkgPath m \<longrightarrow> packageQualifier pkg m = ([], m)"
    by (simp add: packageQualifier_self)
next
  show "Join [Dir (Path pkg), PkgName pkg] \<noteq> m_pkgPath m \<and> Path pkg \<noteq> ''.'' \<longrightarrow>
      packageQualifier pkg m
        = (PkgName pkg, m\<lparr>m_imports := List.insert (Path pkg) (m_imports m)\<rparr>) \<and>
      Path pkg \<in> set (m_imports (snd (packageQualifier pkg m)))"
    by (simp add: packageQualifier_def)
next
  show "New env order0 src pn = Inr m0 \<and> pkgPath env src = Inr pkgFull \<and>
    mockDoc env order pkgInfo name m0 = (Inr d, m') \<and>
    (\<forall>p \<in> set (referenced (Lookup pkgInfo) name).
       Path p \<noteq> ''.'' \<and> (Path p = pkgFull \<longrightarrow> PkgName p = m_pkgName m0)) \<longrightarrow>
      pkgFull \<notin> set (m_imports m') \<and>
      set (m_imports m') = set (recorded (m_pkgPath m0) (referenced (Lookup pkgInfo) name)) \<and>
      Imports d =
        moqImports env
        @ (if \<exists>ob \<in> set (Objects d). Methods ob \<noteq> [] then [''sync''] else [])
        @ map stripVendorPath (range_keys order (m_imports m')) \<and>
      (pkgFull \<notin> set (moqImports env) \<and> pkgFull \<noteq> ''sync'' \<and>
       (\<forall>p \<in> set (referenced (Lookup pkgInfo) name).
          stripVendorPath (Path p) = pkgFull \<longrightarrow> Path p = pkgFull) \<longrightarrow>
         pkgFull \<notin> set (Imports d)) \<and>
      (i < length name \<and> Lookup pkgInfo (name ! i) = Some (InterfaceObject meths) \<and>
       j < length meths \<longrightarrow>
         (\<forall>k < length (Params_sig (FuncSig (meths ! j))).
            Type (Params (Methods (Objects d ! i) ! j) ! k)
              = fst (TypeString
                       (drop_pkg (Package pkgFull (m_pkgName m0))
                          (VarType (Params_sig (FuncSig (meths ! j)) ! k))) m0)) \<and>
         (\<forall>k < length (Results_sig (FuncSig (meths ! j))).
            Type (Returns (Methods (Objects d ! i) ! j) ! k)
              = fst (TypeString
                       (drop_pkg (Package pkgFull (m_pkgName m0))
                          (VarType (Results_sig (FuncSig (meths ! j)) ! k))) m0)))"
  proof (intro impI, elim conjE)
    assume new: "New env order0 src pn = Inr m0"
       and full: "pkgPath env src = Inr pkgFull"
       and run: "mockDoc env order pkgInfo name m0 = (Inr d, m')"
       and loaded: "\<forall>p \<in> set (referenced (Lookup pkgInfo) name).
                      Path p \<noteq> ''.'' \<and> (Path p = pkgFull \<longrightarrow> PkgName p = m_pkgName m0)"
    let ?refs = "referenced (Lookup pkgInfo) name"
    from New_pkgPath[OF new full] have own: "m_pkgPath m0 = Join [Dir pkgFull, m_pkgName m0]" .
    from mockDoc_imports[OF run] New_imports[OF new]
    have rec: "set (m_imports m') = set (recorded (m_pkgPath m0) ?refs)" by simp
    from recorded_not_own[OF loaded] own rec
    have no_own: "pkgFull \<notin> set (m_imports m')" by simp
    note list = mockDoc_Imports_list[OF run]
    have doc: "pkgFull \<notin> set (moqImports env) \<and> pkgFull \<noteq> ''sync'' \<and>
       (\<forall>p \<in> set ?refs. stripVendorPath (Path p) = pkgFull \<longrightarrow> Path p = pkgFull) \<longrightarrow>
         pkgFull \<notin> set (Imports d)"
    proof (intro impI, elim conjE)
      assume base: "pkgFull \<notin> set (moqImports env)" and sync: "pkgFull \<noteq> ''sync''"
         and vend: "\<forall>p \<in> set ?refs. stripVendorPath (Path p) = pkgFull \<longrightarrow> Path p = pkgFull"
      from recorded_strip_not_own[OF loaded vend] own rec
      have "pkgFull \<notin> stripVendorPath ` set (m_imports m')" by simp
      with base sync list show "pkgFull \<notin> set (Imports d)"
        by (auto simp: set_range_keys)
    qed
    have types: "i < length name \<and> Lookup pkgInfo (name ! i) = Some (InterfaceObject meths) \<and>
       j < length meths \<longrightarrow>
         (\<forall>k < length (Params_sig (FuncSig (meths ! j))).
            Type (Params (Methods (Objects d ! i) ! j) ! k)
              = fst (TypeString
                       (drop_pkg (Package pkgFull (m_pkgName m0))
                          (VarType (Params_sig (FuncSig (meths ! j)) ! k))) m0)) \<and>
         (\<forall>k < length (Results_sig (FuncSig (meths ! j))).
            Type (Returns (Methods (Objects d ! i) ! j) ! k)
              = fst (TypeString
                       (drop_pkg (Package pkgFull (m_pkgName m0))
                          (VarType (Results_sig (FuncSig (meths ! j)) ! k))) m0))"
    proof (intro impI, elim conjE)
      assume i: "i < length name"
         and l: "Lookup pkgInfo (name ! i) = Some (InterfaceObject meths)"
         and j: "j < length meths"
      have id: "Join [Dir (Path (Package pkgFull (m_pkgName m0))),
                      PkgName (Package pkgFull (m_pkgName m0))] = m_pkgPath m0"
        using own by simp
      from mockDoc_types[OF run i l j] TypeString_drop_pkg[OF id]
      show "(\<forall>k < length (Params_sig (FuncSig (meths ! j))).
            Type (Params (Methods (Objects d ! i) ! j) ! k)
              = fst (TypeString
                       (drop_pkg (Package pkgFull (m_pkgName m0))
                          (VarType (Params_sig (FuncSig (meths ! j)) ! k))) m0)) \<and>
         (\<forall>k < length (Results_sig (FuncSig (meths ! j))).
            Type (Returns (Methods (Objects d ! i) ! j) ! k)
              = fst (TypeString
                       (drop_pkg (Package pkgFull (m_pkgName m0))
                          (VarType (Results_sig (FuncSig (meths ! j)) ! k))) m0))"
        by simp
    qed
    from no_own rec list doc types
    show "pkgFull \<notin> set (m_imports m') \<and>
      set (m_imports m') = set (recorded (m_pkgPath m0) (referenced (Lookup pkgInfo) name)) \<and>
      Imports d =
        moqImports env
        @ (if \<exists>ob \<in> set (Objects d). Methods ob \<noteq> [] then [''sync''] else [])
        @ map stripVendorPath (range_keys order (m_imports m')) \<and>
      (pkgFull \<notin> set (moqImports env) \<and> pkgFull \<noteq> ''sync'' \<and>
       (\<forall>p \<in> set (referenced (Lookup pkgInfo) name).
          stripVendorPath (Path p) = pkgFull \<longrightarrow> Path p = pkgFull) \<longrightarrow>
         pkgFull \<notin> set (Imports d)) \<and>
      (i < length name \<and> Lookup pkgInfo (name ! i) = Some (InterfaceObject meths) \<and>
       j < length meths \<longrightarrow>
         (\<forall>k < length (Params_sig (FuncSig (meths ! j))).
            Type (Params (Methods (Objects d ! i) ! j) ! k)
              = fst (TypeString
                       (drop_pkg (Package pkgFull (m_pkgName m0))
                          (VarType (Params_sig (FuncSig (meths ! j)) ! k))) m0)) \<and>
         (\<forall>k < length (Results_sig (FuncSig (meths ! j))).
            Type (Returns (Methods (Objects d ! i) ! j) ! k)
              = fst (TypeString
                       (drop_pkg (Package pkgFull (m_pkgName m0))
                          (VarType (Results_sig (FuncSig (meths ! j)) ! k))) m0)))"
      by (intro conjI)
  qed
qed

text \<open>
  The theorem on the example: the package itself and the foreign package
  \<^verbatim>\<open>context\<close>, then the document for \<^verbatim>\<open>Store\<close>, generated into its own
  package: it imports \<^verbatim>\<open>sync\<close> and \<^verbatim>\<open>context\<close> and not
  \<^verbatim>\<open>example.com/p\<close>, and the first result of \<^verbatim>\<open>Get\<close> has the type string
  \<^verbatim>\<open>*Person\<close>.
\<close>

theorem C3_packageQualifier_witness:
  "packageQualifier self_pkg example_mocker = ([], example_mocker) \<and>
   (packageQualifier context_pkg example_mocker
      = (PkgName context_pkg,
         example_mocker\<lparr>m_imports := List.insert (Path context_pkg) (m_imports example_mocker)\<rparr>) \<and>
    Path context_pkg \<in> set (m_imports (snd (packageQualifier context_pkg example_mocker)))) \<and>
   ''example.com/p''
     \<notin> set (m_imports (snd (mockDoc example_env [] example_info [''Store''] example_mocker))) \<and>
   set (m_imports (snd (mockDoc example_env [] example_info [''Store''] example_mocker)))
     = set (recorded (m_pkgPath example_mocker) (referenced (Lookup example_info) [''Store''])) \<and>
   ''example.com/p''
     \<notin> set (Imports (projr (fst (mockDoc example_env [] example_info [''Store'']
                                      example_mocker)))) \<and>
   Type (Returns (Methods (Objects (projr (fst (mockDoc example_env [] example_info [''Store'']
           example_mocker))) ! 0) ! 0) ! 0)
     = fst (TypeString
              (drop_pkg (Package ''example.com/p'' (m_pkgName example_mocker))
                 (VarType (Results_sig (FuncSig (store_methods ! 0)) ! 0))) example_mocker) \<and>
   Type (Returns (Methods (Objects (projr (fst (mockDoc example_env [] example_info [''Store'']
           example_mocker))) ! 0) ! 0) ! 0) = ''*Person'' \<and>
   Imports (projr (fst (mockDoc example_env [] example_info [''Store''] example_mocker)))
     = [''sync'', ''context'']"
proof -
  let ?r = "mockDoc example_env [] example_info [''Store''] example_mocker"
  let ?d = "projr (fst ?r)"
  let ?refs = "referenced (Lookup example_info) [''Store'']"
  have own: "Join [Dir (Path self_pkg), PkgName self_pkg] = m_pkgPath example_mocker"
    by code_simp
  have foreign: "Join [Dir (Path context_pkg), PkgName context_pkg] \<noteq> m_pkgPath example_mocker
                 \<and> Path context_pkg \<noteq> ''.''"
    by code_simp
  have new: "New example_env [] ''.'' [] = Inr example_mocker"
    by code_simp
  have full: "pkgPath example_env ''.'' = Inr ''example.com/p''"
    by code_simp
  have run: "?r = (Inr ?d, snd ?r)"
    by code_simp
  have loaded: "\<forall>p \<in> set ?refs.
                  Path p \<noteq> ''.'' \<and>
                  (Path p = ''example.com/p'' \<longrightarrow> PkgName p = m_pkgName example_mocker)"
    by code_simp
  have side: "''example.com/p'' \<notin> set (moqImports example_env) \<and> ''example.com/p'' \<noteq> ''sync'' \<and>
              (\<forall>p \<in> set ?refs.
                 stripVendorPath (Path p) = ''example.com/p'' \<longrightarrow> Path p = ''example.com/p'')"
    by code_simp
  have l: "Lookup example_info ([''Store''] ! 0) = Some (InterfaceObject store_methods)"
    by code_simp
  have pos: "0 < length [''Store''] \<and>
             Lookup example_info ([''Store''] ! 0) = Some (InterfaceObject store_methods) \<and>
             0 < length store_methods"
    using l by (simp add: store_methods_def)
  have k: "0 < length (Results_sig (FuncSig (store_methods ! 0)))"
    by code_simp
  note a = C3_packageQualifier[where pkg = self_pkg and m = example_mocker
      and env = example_env and ?order0.0 = "[]" and src = "''.''" and pn = "[]"
      and ?m0.0 = example_mocker and pkgFull = "''example.com/p''" and order = "[]"
      and pkgInfo = example_info and name = "[''Store'']" and d = ?d and m' = "snd ?r"
      and i = 0 and meths = store_methods and j = 0]
  note b = C3_packageQualifier[where pkg = context_pkg and m = example_mocker
      and env = example_env and ?order0.0 = "[]" and src = "''.''" and pn = "[]"
      and ?m0.0 = example_mocker and pkgFull = "''example.com/p''" and order = "[]"
      and pkgInfo = example_info and name = "[''Store'']" and d = ?d and m' = "snd ?r"
      and i = 0 and meths = store_methods and j = 0]
  from a own have c1: "packageQualifier self_pkg example_mocker = ([], example_mocker)"
    by blast
  from b foreign have c2: "packageQualifier context_pkg example_mocker
      = (PkgName context_pkg,
         example_mocker\<lparr>m_imports := List.insert (Path context_pkg) (m_imports example_mocker)\<rparr>) \<and>
    Path context_pkg \<in> set (m_imports (snd (packageQualifier context_pkg example_mocker)))"
    by blast
  from a new full run loaded have c3:
    "''example.com/p'' \<notin> set (m_imports (snd ?r))"
    "set (m_imports (snd ?r)) = set (recorded (m_pkgPath example_mocker) ?refs)"
    "''example.com/p'' \<notin> set (moqImports example_env) \<and> ''example.com/p'' \<noteq> ''sync'' \<and>
       (\<forall>p \<in> set ?refs.
          stripVendorPath (Path p) = ''example.com/p'' \<longrightarrow> Path p = ''example.com/p'') \<longrightarrow>
         ''example.com/p'' \<notin> set (Imports ?d)"
    "0 < length [''Store''] \<and>
       Lookup example_info ([''Store''] ! 0) = Some (InterfaceObject store_methods) \<and>
       0 < length store_methods \<longrightarrow>
         (\<forall>k < length (Params_sig (FuncSig (store_methods ! 0))).
            Type (Params (Methods (Objects ?d ! 0) ! 0) ! k)
              = fst (TypeString
                       (drop_pkg (Package ''example.com/p'' (m_pkgName example_mocker))
                          (VarType (Params_sig (FuncSig (store_methods ! 0)) ! k)))
                       example_mocker)) \<and>
         (\<forall>k < length (Results_sig (FuncSig (store_methods ! 0))).
            Type (Returns (Methods (Objects ?d ! 0) ! 0) ! k)
              = fst (TypeString
                       (drop_pkg (Package ''example.com/p'' (m_pkgName example_mocker))
                          (VarType (Results_sig (FuncSig (store_methods ! 0)) ! k)))
                       example_mocker))"
    by blast+
  from c3(3) side have c4: "''example.com/p'' \<notin> set (Imports ?d)"
    by blast
  from c3(4) pos k have c5:
    "Type (Returns (Methods (Objects ?d ! 0) ! 0) ! 0)
       = fst (TypeString
                (drop_pkg (Package ''example.com/p'' (m_pkgName example_mocker))
                   (VarType (Results_sig (FuncSig (store_methods ! 0)) ! 0))) example_mocker)"
    by blast
  have v1: "Type (Returns (Methods (Objects ?d ! 0) ! 0) ! 0) = ''*Person''"
    by code_simp
  have v2: "Imports ?d = [''sync'', ''context'']"
    by code_simp
  from c1 c2[THEN conjunct1] c2[THEN conjunct2] c3(1) c3(2) c4 c5 v1 v2
  show ?thesis by (intro conjI)
qed

section \<open>Variadic detection\<close>

text \<open>
  What the loop of \<open>extractArgs\<close> does guarantee: a descriptor is flagged only when
  the signature is variadic, the descriptor is the last of its tuple and its type string
  starts with \<open>[]\<close>.
\<close>

lemma extractArgs_loop_variadic:
  "extractArgs_loop sig listLen nameFormat ii list m = (Inr ps, m') \<Longrightarrow>
     k < length ps \<Longrightarrow> Variadic (ps ! k) \<Longrightarrow>
     Variadic_sig sig \<and> ii + k = listLen - 1 \<and> take 2 (Type (ps ! k)) = ''[]''"
proof (induction list arbitrary: ii m ps k)
  case Nil
  then show ?case by simp
next
  case (Cons p rest)
  obtain typename m1 where ts: "TypeString (VarType p) m = (typename, m1)"
    by (cases "TypeString (VarType p) m")
  from Cons.prems(1) ts obtain ps' where
    rec: "extractArgs_loop sig listLen nameFormat (ii + 1) rest m1 = (Inr ps', m')" and
    ps: "ps = \<lparr>Name = (if VarName p = [] then Sprintf nameFormat (ii + 1) else VarName p),
                Type = typename,
                Variadic = (Variadic_sig sig \<and> ii = listLen - 1 \<and> take 2 typename = ''[]'')\<rparr>
              # ps'"
    by (auto simp: Let_def split: if_splits prod.splits sum.splits)
  show ?case
  proof (cases k)
    case 0
    with Cons.prems(3) ps show ?thesis by simp
  next
    case (Suc k')
    with Cons.prems(2,3) ps have "k' < length ps'" and "Variadic (ps' ! k')" by simp_all
    from Cons.IH[OF rec this] Suc ps show ?thesis by simp
  qed
qed

lemma TypeString_slice:
  "is_slice t \<Longrightarrow> TypeString t m = (typename, m') \<Longrightarrow>
     2 \<le> length typename \<and> take 2 typename = ''[]''"
  by (cases t) (auto simp: is_slice_def split: prod.splits)

text \<open>
  The slice expression is safe where go/types guarantees a slice: the parameters of any
  signature are extracted without a panic, and so is every tuple of a signature that is
  not variadic.
\<close>

lemma extractArgs_loop_returns:
  assumes "listLen = ii + length list"
      and "Variadic_sig sig \<Longrightarrow> list \<noteq> [] \<Longrightarrow> is_slice (VarType (last list))"
  shows "\<exists>ps m'. extractArgs_loop sig listLen nameFormat ii list m = (Inr ps, m')"
  using assms
proof (induction list arbitrary: ii m)
  case Nil
  show ?case by simp
next
  case (Cons p rest)
  obtain typename m1 where ts: "TypeString (VarType p) m = (typename, m1)"
    by (cases "TypeString (VarType p) m")
  have safe: "\<not> (Variadic_sig sig \<and> ii = listLen - 1 \<and> length typename < 2)"
  proof
    assume a: "Variadic_sig sig \<and> ii = listLen - 1 \<and> length typename < 2"
    from Cons.prems(1) have "listLen = ii + 1 + length rest" by simp
    moreover from a have "ii = listLen - 1" by simp
    ultimately have "length rest = 0" by arith
    then have "rest = []" by simp
    with Cons.prems(2) a have "is_slice (VarType p)" by simp
    from TypeString_slice[OF this ts] a show False by simp
  qed
  have "\<exists>ps m'. extractArgs_loop sig listLen nameFormat (ii + 1) rest m1 = (Inr ps, m')"
  proof (rule Cons.IH)
    show "listLen = ii + 1 + length rest" using Cons.prems(1) by simp
  next
    assume "Variadic_sig sig" and "rest \<noteq> []"
    with Cons.prems(2) show "is_slice (VarType (last rest))" by simp
  qed
  then obtain ps m2 where
    rec: "extractArgs_loop sig listLen nameFormat (ii + 1) rest m1 = (Inr ps, m2)"
    by blast
  from ts safe rec show ?case by (simp add: Let_def)
qed

lemma extractArgs_params_return:
  "wf_sig sig \<Longrightarrow> \<exists>ps m'. extractArgs m sig (Params_sig sig) nameFormat = (Inr ps, m')"
  unfolding extractArgs_def
  by (rule extractArgs_loop_returns) (auto simp: wf_sig_def split: if_splits)

lemma extractArgs_not_variadic_returns:
  "\<not> Variadic_sig sig \<Longrightarrow> \<exists>ps m'. extractArgs m sig list nameFormat = (Inr ps, m')"
  unfolding extractArgs_def
  by (rule extractArgs_loop_returns) auto

lemma extractArgs_variadic:
  assumes "extractArgs m sig list nameFormat = (Inr ps, m')"
      and "k < length ps" and "Variadic (ps ! k)"
  shows "Variadic_sig sig \<and> k = length list - 1 \<and> take 2 (Type (ps ! k)) = ''[]''"
  using extractArgs_loop_variadic[OF assms(1)[unfolded extractArgs_def] assms(2,3)]
  by auto

lemma wf_examples: "wf_sig tags_sig" "wf_sig pick_sig"
  by code_simp+

text \<open>
  And what it does beyond: whatever the tuple, the last descriptor of a variadic
  signature is flagged when the type of the last variable is a slice.
\<close>

lemma extractArgs_loop_last_flagged:
  assumes "listLen = ii + length list" and "Variadic_sig sig" and "list \<noteq> []"
      and "is_slice (VarType (last list))"
      and "extractArgs_loop sig listLen nameFormat ii list m = (Inr ps, m')"
  shows "ps \<noteq> [] \<and> Variadic (last ps)"
  using assms
proof (induction list arbitrary: ii m ps)
  case Nil
  then show ?case by simp
next
  case (Cons p rest)
  obtain typename m1 where ts: "TypeString (VarType p) m = (typename, m1)"
    by (cases "TypeString (VarType p) m")
  from Cons.prems(5) ts obtain ps' where
    rec: "extractArgs_loop sig listLen nameFormat (ii + 1) rest m1 = (Inr ps', m')" and
    ps: "ps = \<lparr>Name = (if VarName p = [] then Sprintf nameFormat (ii + 1) else VarName p),
                Type = typename,
                Variadic = (Variadic_sig sig \<and> ii = listLen - 1 \<and> take 2 typename = ''[]'')\<rparr>
              # ps'"
    by (auto simp: Let_def split: if_splits prod.splits sum.splits)
  show ?case
  proof (cases "rest = []")
    case True
    with Cons.prems(1) have last: "ii = listLen - 1" by simp
    from True Cons.prems(4) have "is_slice (VarType p)" by simp
    from TypeString_slice[OF this ts] have "take 2 typename = ''[]''" by simp
    moreover from True rec have "ps' = []" by simp
    ultimately show ?thesis using ps last Cons.prems(2) by simp
  next
    case False
    have "ps' \<noteq> [] \<and> Variadic (last ps')"
    proof (rule Cons.IH[OF _ Cons.prems(2) False _ rec])
      show "listLen = ii + 1 + length rest" using Cons.prems(1) by simp
      show "is_slice (VarType (last rest))" using Cons.prems(4) False by simp
    qed
    with ps show ?thesis by simp
  qed
qed

lemma extractArgs_last_flagged:
  "Variadic_sig sig \<Longrightarrow> list \<noteq> [] \<Longrightarrow> is_slice (VarType (last list)) \<Longrightarrow>
   extractArgs m sig list nameFormat = (Inr ps, m') \<Longrightarrow> ps \<noteq> [] \<and> Variadic (last ps)"
  unfolding extractArgs_def
  by (rule extractArgs_loop_last_flagged[where ii = 0]) simp_all

text \<open>
  Claim C1 fails on the outputs. \<open>Mock\<close> hands the method's signature to
  \<open>extractArgs\<close> for the results as it does for the parameters, so the last result of a
  variadic method is flagged when its type is a slice: for
  \<^verbatim>\<open>Tags(prefixes ...string) []string\<close> the descriptor of the result has
  \<open>Variadic = True\<close>.
\<close>

theorem C1_output_flagged_variadic:
  "fst (mock_methods [Func ''Tags'' tags_sig] example_mocker) =
     Inr [\<lparr>MethodName = ''Tags'',
           Params = [\<lparr>Name = ''prefixes'', Type = ''[]string'', Variadic = True\<rparr>],
           Returns = [\<lparr>Name = ''out1'', Type = ''[]string'', Variadic = True\<rparr>]\<rparr>]"
  by code_simp

text \<open>
  Claim C10 fails for the same reason. For \<^verbatim>\<open>Pick(xs ...int) T\<close>, with \<^verbatim>\<open>T\<close>
  a type of the package the mock is generated into, the result's type string is the
  single byte \<^verbatim>\<open>T\<close>; the signature is variadic and the result is the last of its
  tuple, so \<open>typename[0:2]\<close> is evaluated and panics, and the call of \<open>Mock\<close> is
  aborted.
\<close>

theorem C10_short_type_panics:
  "fst (TypeString (Named (Some self_pkg) ''T'') example_mocker) = ''T'' \<and>
   fst (extractArgs example_mocker pick_sig (Results_sig pick_sig) ''out%d'')
     = Inl SliceBoundsPanic \<and>
   fst (Mock example_env [] buffer_Write [] [''Picker''] example_mocker example_fs)
     = Some SliceBoundsPanic"
  by code_simp

section \<open>Vendored import paths\<close>

text \<open>The example of the specification and of the function's comment.\<close>

lemma stripVendorPath_example:
  "stripVendorPath ''example.com/mod/vendor/example.org/pkg'' = ''example.org/pkg''"
  "stripVendorPath ''github.com/foo/bar/vendor/github.com/pkg/errors'' = ''github.com/pkg/errors''"
  by code_simp+

text \<open>A path without the marker is left as it is.\<close>

lemma stripVendorPath_no_marker:
  "\<not> Contains p ''/vendor/'' \<Longrightarrow> stripVendorPath p = p"
  by (simp add: Contains_def stripVendorPath_def)

text \<open>
  Claim C4 fails on a path with more than one marker, as of a package vendored by a
  vendored package: the pieces after the first marker are joined with \<open>/\<close>, which is
  the portion after neither marker. And a path in which a directory named
  \<^verbatim>\<open>vendor\<close> follows a marker directly comes out with a marker in it.
\<close>

theorem C4_nested_vendor:
  "stripVendorPath ''github.com/foo/vendor/github.com/bar/vendor/github.com/baz''
     = ''github.com/bar/github.com/baz'' \<and>
   stripVendorPath ''x/vendor/a/vendor/vendor/b'' = ''a/vendor/b'' \<and>
   Contains (stripVendorPath ''x/vendor/a/vendor/vendor/b'') ''/vendor/''"
  by code_simp

section \<open>Cleanup of old mocks\<close>

text \<open>
  Whatever \<open>os.Remove\<close> answers, \<open>removeOldMocks\<close> reports an error only when
  \<open>filepath.Abs\<close> or \<open>filepath.Glob\<close> fails.
\<close>

lemma removeOldMocks_no_error:
  "Abs env srcFolder = Inr absPath \<Longrightarrow>
   Glob env (Join [absPath, ''*_mock.go'']) (files fs) = Inr oldMocks \<Longrightarrow>
   removeOldMocks env srcFolder fs = (None, remove_each oldMocks fs)"
  by (simp add: removeOldMocks_def)

text \<open>
  A file that the system refuses to remove is still there after \<open>removeOldMocks\<close>
  has returned without an error.
\<close>

lemma os_Remove_undeletable:
  "f \<in> set (files fs) \<Longrightarrow> f \<in> set (undeletable fs) \<Longrightarrow>
     f \<in> set (files (snd (os_Remove g fs))) \<and> f \<in> set (undeletable (snd (os_Remove g fs)))"
  by (auto simp: os_Remove_def)

lemma remove_each_undeletable:
  "f \<in> set (files fs) \<Longrightarrow> f \<in> set (undeletable fs) \<Longrightarrow>
     f \<in> set (files (remove_each oldMocks fs))"
proof (induction oldMocks arbitrary: fs)
  case Nil
  then show ?case by simp
next
  case (Cons mock oldMocks)
  from os_Remove_undeletable[OF Cons.prems, of mock] Cons.IH show ?case by simp
qed

lemma removeOldMocks_leaves_undeletable:
  "removeOldMocks env srcFolder fs = (None, fs') \<Longrightarrow>
   f \<in> set (files fs) \<Longrightarrow> f \<in> set (undeletable fs) \<Longrightarrow> f \<in> set (files fs')"
  by (auto simp: removeOldMocks_def remove_each_undeletable split: sum.splits)

text \<open>
  Claim C5 fails: the error of \<open>os.Remove\<close> is dropped. With a generated file in the
  directory that the system refuses to remove, \<open>removeOldMocks\<close> reports no error and
  \<open>Mock\<close> succeeds and writes its output, the old file still in place.
\<close>

theorem C5_remove_error_dropped:
  "fst (os_Remove ''/go/src/example.com/p/store_mock.go'' example_fs)
     = Some ''operation not permitted'' \<and>
   removeOldMocks example_env ''.'' example_fs = (None, example_fs) \<and>
   Mock example_env [] buffer_Write [] [''Empty''] example_mocker example_fs
     = (None, example_mocker, example_fs, ''package p'')"
  by code_simp

section \<open>Repeated runs\<close>

text \<open>With a package name given, \<open>New\<close> does not depend on the order of the map.\<close>

lemma New_override_deterministic:
  "packageName \<noteq> [] \<Longrightarrow> New env order src packageName = New env order' src packageName"
  by (simp add: New_def split: sum.splits)

lemma range_keys_single: "range_keys order [k] = [k]"
  by (induction order) (auto simp: range_keys_def)

text \<open>Nor does it when the directory holds one package.\<close>

lemma New_single_package_deterministic:
  "ParseDir env src = Inr [pkgName] \<Longrightarrow>
     New env order src packageName = New env order' src packageName"
  by (simp add: New_def range_keys_single)

text \<open>
  Claim C9 fails when the directory holds more than one package outside its test files
  and no package name is given: \<open>New\<close> takes the first key that \<open>range\<close> visits, and
  that order changes from run to run. In the directory with the packages \<^verbatim>\<open>p\<close> and
  \<^verbatim>\<open>main\<close>, one order makes a Mocker for package \<^verbatim>\<open>p\<close>, another for package
  \<^verbatim>\<open>main\<close>, and the documents built for the same interface differ in their package
  name.
\<close>

theorem C9_package_choice_varies:
  "New two_package_env [] ''.'' [] = Inr example_mocker \<and>
   New two_package_env [''main''] ''.'' []
     = Inr \<lparr>m_src = ''.'', m_pkgName = ''main'', m_pkgPath = ''example.com/main'',
            m_imports = []\<rparr> \<and>
   fst (mockDoc two_package_env [] example_info [''Empty''] example_mocker)
     = Inr \<lparr>PackageName = ''p'', Objects = [\<lparr>InterfaceName = ''Empty'', Methods = []\<rparr>],
            Imports = []\<rparr> \<and>
   fst (mockDoc two_package_env [] example_info [''Empty'']
          \<lparr>m_src = ''.'', m_pkgName = ''main'', m_pkgPath = ''example.com/main'',
           m_imports = []\<rparr>)
     = Inr \<lparr>PackageName = ''main'', Objects = [\<lparr>InterfaceName = ''Empty'', Methods = []\<rparr>],
            Imports = []\<rparr>"
  by code_simp

end
